theory Spec2Isabelle
  imports Complex_Main "HOL-Library.Sublist"
begin

section \<open>Python string primitives used by the scorer\<close>

text \<open>
  Transcripts are Python \<open>str\<close> values. They are modelled as \<open>string\<close>, one \<open>char\<close>
  per code point, for the code points below 256; the character classes below are the
  ones Python's \<open>str.isspace\<close>, \<open>str.lower\<close>, \<open>str.isdigit\<close> and \<open>str.isalpha\<close>
  have on that range. The regular expression class \<open>\s\<close> of module \<open>re\<close> is the same
  set as \<open>str.isspace\<close>. Every division and every index into a list in the source
  sits behind a guard that excludes a zero divisor or an empty list, so the functions
  below have no error result.

  A Python float is a double; it is modelled by the real number it denotes (infinities
  and NaN are outside the model), and comparisons are exact, as they are in Python
  between floats and between a float and an int. The arithmetic of
  \<open>score_speech_rate\<close> and \<open>score_grammar\<close> rounds: these two functions take the
  rounding as a parameter \<open>rnd\<close>, where \<open>rnd x\<close> is the double that IEEE 754
  arithmetic returns for the exact result \<open>x\<close>. An operation on floats, the conversion
  of an int to a float, the true division of two ints and a decimal literal each
  return \<open>rnd\<close> of their exact value; literals that are whole numbers are written
  without \<open>rnd\<close>. The quotients of two word counts in \<open>compute_ttr\<close> and
  \<open>score_clarity\<close> are taken exactly.
\<close>

definition isspace :: "char \<Rightarrow> bool" where
  "isspace c = (let n = (of_char c :: nat) in
     (9 \<le> n \<and> n \<le> 13) \<or> (28 \<le> n \<and> n \<le> 32) \<or> n = 133 \<or> n = 160)"

definition isupper :: "char \<Rightarrow> bool" where
  "isupper c = (let n = (of_char c :: nat) in
     (65 \<le> n \<and> n \<le> 90) \<or> (192 \<le> n \<and> n \<le> 214) \<or> (216 \<le> n \<and> n \<le> 222))"

definition isdigit :: "char \<Rightarrow> bool" where
  "isdigit c = (let n = (of_char c :: nat) in
     (48 \<le> n \<and> n \<le> 57) \<or> n = 178 \<or> n = 179 \<or> n = 185)"

definition isalpha :: "char \<Rightarrow> bool" where
  "isalpha c = (let n = (of_char c :: nat) in
     (65 \<le> n \<and> n \<le> 90) \<or> (97 \<le> n \<and> n \<le> 122) \<or> n = 170 \<or> n = 181 \<or> n = 186 \<or>
     (192 \<le> n \<and> n \<le> 214) \<or> (216 \<le> n \<and> n \<le> 246) \<or> (248 \<le> n \<and> n \<le> 255))"

definition lower_char :: "char \<Rightarrow> char" where
  "lower_char c = (if isupper c then char_of ((of_char c :: nat) + 32) else c)"

text \<open>\<open>s.lower()\<close>\<close>

definition str_lower :: "string \<Rightarrow> string" where
  "str_lower s = map lower_char s"

text \<open>\<open>s.strip()\<close>: leading and trailing whitespace removed.\<close>

definition str_strip :: "string \<Rightarrow> string" where
  "str_strip s = rev (dropWhile isspace (rev (dropWhile isspace s)))"

text \<open>\<open>s.replace(a, b)\<close> for single characters \<open>a\<close> and \<open>b\<close>.\<close>

definition str_replace_char :: "char \<Rightarrow> char \<Rightarrow> string \<Rightarrow> string" where
  "str_replace_char a b s = map (\<lambda>c. if c = a then b else c) s"

text \<open>\<open>re.sub(r"\s+", " ", s)\<close>: every maximal run of whitespace becomes one space.\<close>

function re_sub_ws :: "string \<Rightarrow> string" where
  "re_sub_ws [] = []"
| "re_sub_ws (c # cs) =
     (if isspace c then CHR '' '' # re_sub_ws (dropWhile isspace cs)
      else c # re_sub_ws cs)"
  by pat_completeness auto
termination
  by (relation "measure length") (auto simp: length_dropWhile_le less_Suc_eq_le)

text \<open>\<open>s.split()\<close>: the maximal runs of non-whitespace characters, in order.\<close>

function str_split :: "string \<Rightarrow> string list" where
  "str_split s =
     (case dropWhile isspace s of
        [] \<Rightarrow> []
      | c # cs \<Rightarrow> takeWhile (\<lambda>x. \<not> isspace x) (c # cs)
                 # str_split (dropWhile (\<lambda>x. \<not> isspace x) cs))"
  by pat_completeness auto
termination
proof (relation "measure length", goal_cases)
  case 1
  show ?case by simp
next
  case (2 s c cs)
  have "length (dropWhile (\<lambda>x. \<not> isspace x) cs) \<le> length cs"
    by (rule length_dropWhile_le)
  moreover have "length (dropWhile isspace s) \<le> length s"
    by (rule length_dropWhile_le)
  ultimately show ?case using 2 by simp
qed

declare str_split.simps [simp del]

text \<open>The sentence separators of \<open>re.split(r"[.!?]+", s)\<close>.\<close>

definition is_terminator :: "char \<Rightarrow> bool" where
  "is_terminator c = (c = CHR ''.'' \<or> c = CHR ''!'' \<or> c = CHR ''?'')"

text \<open>
  \<open>re.split(r"[.!?]+", s)\<close>: the pieces between maximal runs of separators, the empty
  pieces at both ends included.
\<close>

function re_split_punct :: "string \<Rightarrow> string list" where
  "re_split_punct s =
     (case dropWhile (\<lambda>x. \<not> is_terminator x) s of
        [] \<Rightarrow> [s]
      | c # cs \<Rightarrow> takeWhile (\<lambda>x. \<not> is_terminator x) s
                 # re_split_punct (dropWhile is_terminator cs))"
  by pat_completeness auto
termination
proof (relation "measure length", goal_cases)
  case 1
  show ?case by simp
next
  case (2 s c cs)
  have "length (dropWhile is_terminator cs) \<le> length cs"
    by (rule length_dropWhile_le)
  moreover have "length (dropWhile (\<lambda>x. \<not> is_terminator x) s) \<le> length s"
    by (rule length_dropWhile_le)
  ultimately show ?case using 2 by simp
qed

declare re_split_punct.simps [simp del]

text \<open>\<open>p in s\<close> for strings: \<open>p\<close> occurs in \<open>s\<close> as a contiguous piece.\<close>

fun str_in :: "string \<Rightarrow> string \<Rightarrow> bool" where
  "str_in p [] = (p = [])"
| "str_in p (c # cs) = (prefix p (c # cs) \<or> str_in p cs)"

text \<open>\<open>s.count(p)\<close>: the number of non-overlapping occurrences, scanning from the left.\<close>

function str_count :: "string \<Rightarrow> string \<Rightarrow> nat" where
  "str_count p s =
     (if p = [] then length s + 1
      else if s = [] then 0
      else if prefix p s then 1 + str_count p (drop (length p) s)
      else str_count p (tl s))"
  by pat_completeness auto
termination
  by (relation "measure (\<lambda>(p, s). length s)") auto

declare str_count.simps [simp del]

section \<open>text\_utils: normalisation and statistics\<close>

text \<open>\<open>preprocess_text\<close>: lowercase and strip extra whitespace.\<close>

definition preprocess_text :: "string \<Rightarrow> string" where
  "preprocess_text text =
     (if text = [] then []
      else str_lower (str_strip (re_sub_ws
             (str_replace_char (CHR 0x0A) (CHR '' '')
               (str_replace_char (CHR 0x0D) (CHR '' '') text)))))"

text \<open>The dictionary returned by \<open>get_basic_stats\<close>.\<close>

record basic_stats =
  tokens :: "string list"
  total_words :: int
  distinct_words :: int
  sentences :: "string list"
  sentence_count :: int

definition get_basic_stats :: "string \<Rightarrow> basic_stats" where
  "get_basic_stats text =
     (let clean = str_strip text in
      if clean = [] then
        \<lparr>tokens = [], total_words = 0, distinct_words = 0, sentences = [], sentence_count = 0\<rparr>
      else
        let toks = str_split clean;
            raw_sentences = re_split_punct clean;
            sents = map str_strip (filter (\<lambda>s. str_strip s \<noteq> []) raw_sentences)
        in \<lparr>tokens = toks,
            total_words = int (length toks),
            distinct_words = int (card (set toks)),
            sentences = sents,
            sentence_count = int (length sents)\<rparr>)"

definition compute_ttr :: "int \<Rightarrow> int \<Rightarrow> real" where
  "compute_ttr tw dw = (if tw = 0 then 0 else real_of_int dw / real_of_int tw)"

text \<open>\<open>d.get(k, default)\<close> on a dictionary.\<close>

definition dict_get :: "('k \<rightharpoonup> 'v) \<Rightarrow> 'k \<Rightarrow> 'v \<Rightarrow> 'v" where
  "dict_get d k dflt = (case d k of None \<Rightarrow> dflt | Some v \<Rightarrow> v)"

text \<open>The loop of \<open>count_filler_words\<close> that fills \<open>token_counts\<close>.\<close>

definition token_counts :: "string list \<Rightarrow> (string \<rightharpoonup> int)" where
  "token_counts toks = fold (\<lambda>t m. m(t \<mapsto> dict_get m t 0 + 1)) toks Map.empty"

definition count_filler_words :: "string \<Rightarrow> string list \<Rightarrow> int" where
  "count_filler_words text fillers =
     (if text = [] then 0
      else
        let text_lower = str_lower text;
            counts = token_counts (str_split text_lower)
        in fold (\<lambda>f count.
                   let f' = str_strip (str_lower f) in
                   if str_in '' '' f' then count + int (str_count f' text_lower)
                   else count + dict_get counts f' 0)
                fillers 0)"

text \<open>\<open>any(p in t for p in ps)\<close>, also the loops \<open>for p in ps: if p in t: return ...\<close>.\<close>

definition any_in :: "string list \<Rightarrow> string \<Rightarrow> bool" where
  "any_in ps t = list_ex (\<lambda>p. str_in p t) ps"

definition enthusiastic_phrases :: "string list" where
  "enthusiastic_phrases =
     [''excited to introduce myself'', ''thrilled to introduce myself'',
      ''thrilled to be here'', ''excited to be here'',
      ''i am excited to introduce'', ''i'' @ [CHR 0x27] @ ''m excited to introduce'']"

definition formal_greetings :: "string list" where
  "formal_greetings =
     [''good morning'', ''good afternoon'', ''good evening'',
      ''hello everyone'', ''hello everybody'']"

definition simple_greetings :: "string list" where
  "simple_greetings = [''hello'', ''hi'', ''hey'']"

definition detect_salutation_level :: "string \<Rightarrow> int" where
  "detect_salutation_level text =
     (if text = [] then 0
      else case sentences (get_basic_stats text) of
        [] \<Rightarrow> 0
      | s0 # _ \<Rightarrow>
          let first = str_lower s0 in
          if any_in enthusiastic_phrases first then 5
          else if any_in formal_greetings first then 4
          else if any_in simple_greetings first then 2
          else 0)"

subsection \<open>Keyword concepts\<close>

definition name_phrases :: "string list" where
  "name_phrases = [''my name is'', ''myself'', ''i am '']"

definition school_phrases :: "string list" where
  "school_phrases = [''class '', ''standard'', ''grade '', ''school'']"

definition family_phrases :: "string list" where
  "family_phrases = [''family'', ''mother'', ''father'', ''parents'', ''brother'', ''sister'']"

definition hobby_phrases :: "string list" where
  "hobby_phrases =
     [''my hobby is'', ''my hobbies are'', ''i like to'', ''i love to'', ''i enjoy'',
      ''in my free time'']"

definition about_family_phrases :: "string list" where
  "about_family_phrases =
     [''my family is'', ''we are a family of'', ''there are'', ''members in my family'']"

definition location_phrases :: "string list" where
  "location_phrases =
     [''i am from'', ''i'' @ [CHR 0x27] @ ''m from'', ''i live in'', ''my hometown'']"

definition ambition_phrases :: "string list" where
  "ambition_phrases =
     [''i want to become'', ''i want to be'', ''my dream is'', ''my goal is'',
      ''my ambition is'']"

definition fun_fact_phrases :: "string list" where
  "fun_fact_phrases =
     [''fun fact'', ''something unique about me'', ''one thing about me'',
      ''an interesting thing about me'']"

definition strength_phrases :: "string list" where
  "strength_phrases =
     [''i am good at'', ''i'' @ [CHR 0x27] @ ''m good at'', ''my strength is'',
      ''my strengths are'', ''i have won'', ''i won'', ''i achieved'', ''i have achieved'']"

text \<open>\<open>detect_keywords\<close>: the dictionary from concept key to presence.\<close>

definition detect_keywords :: "string \<Rightarrow> (string \<times> bool) list" where
  "detect_keywords text =
     (let t = str_lower text;
          has_name = any_in name_phrases t;
          has_age = str_in ''years old'' t;
          has_school_class = any_in school_phrases t;
          has_family = any_in family_phrases t;
          has_hobbies = any_in hobby_phrases t;
          has_about_family = any_in about_family_phrases t;
          has_location = any_in location_phrases t;
          has_ambition = any_in ambition_phrases t;
          has_fun_fact = any_in fun_fact_phrases t;
          has_strengths_or_achievements = any_in strength_phrases t
      in [(''has_name'', has_name),
          (''has_age'', has_age),
          (''has_school_class'', has_school_class),
          (''has_family'', has_family),
          (''has_hobbies'', has_hobbies),
          (''has_about_family'', has_about_family),
          (''has_location'', has_location),
          (''has_ambition'', has_ambition),
          (''has_fun_fact'', has_fun_fact),
          (''has_strengths_or_achievements'', has_strengths_or_achievements)])"

subsection \<open>Sentence structure tags\<close>

definition sentence_has_basic :: "string \<Rightarrow> bool" where
  "sentence_has_basic s0 =
     (let s = str_lower s0 in
      if any_in [''my name is'', ''myself'', ''i am ''] s then True
      else if str_in ''years old'' s then True
      else if any_in [''class '', ''standard'', ''grade '', ''school''] s then True
      else if any_in [''i am from'', ''i live in'', ''i'' @ [CHR 0x27] @ ''m from'',
                      ''my hometown''] s then True
      else False)"

definition sentence_has_additional :: "string \<Rightarrow> bool" where
  "sentence_has_additional s0 =
     (let s = str_lower s0 in
      if any_in family_phrases s then True
      else if any_in hobby_phrases s then True
      else if any_in ambition_phrases s then True
      else if any_in fun_fact_phrases s then True
      else if any_in strength_phrases s then True
      else False)"

definition sentence_has_salutation :: "string \<Rightarrow> bool" where
  "sentence_has_salutation s0 =
     (let s = str_lower s0 in
      if any_in [''good morning'', ''good afternoon'', ''good evening''] s then True
      else if any_in [''hello'', ''hi'', ''hey''] s then True
      else if any_in [''excited to introduce myself'', ''thrilled to introduce myself'',
                      ''excited to be here'', ''thrilled to be here''] s then True
      else False)"

definition sentence_has_closing :: "string \<Rightarrow> bool" where
  "sentence_has_closing s0 =
     (let s = str_lower s0 in
      if str_in ''thank you'' s \<or> str_in ''thanks for listening'' s
         \<or> str_in (''that'' @ [CHR 0x27] @ ''s all'') s then True
      else False)"

definition tag_of :: "string \<Rightarrow> string" where
  "tag_of s =
     (if sentence_has_salutation s then ''SALUTATION''
      else if sentence_has_closing s then ''CLOSING''
      else if sentence_has_basic s then ''BASIC''
      else if sentence_has_additional s then ''ADDITIONAL''
      else ''OTHER'')"

definition detect_structure_tags :: "string list \<Rightarrow> string list" where
  "detect_structure_tags sents = map tag_of sents"

section \<open>scoring: the rule-based sub-scorers\<close>

definition score_salutation :: "string \<Rightarrow> int" where
  "score_salutation text = detect_salutation_level text"

definition must_haves :: "(string \<times> string) list" where
  "must_haves =
     [(''Name'', ''has_name''),
      (''Age'', ''has_age''),
      (''School/Class'', ''has_school_class''),
      (''Family'', ''has_family''),
      (''Hobbies/Interests'', ''has_hobbies'')]"

definition good_to_have :: "(string \<times> string) list" where
  "good_to_have =
     [(''About family (details)'', ''has_about_family''),
      (''Location/Origin'', ''has_location''),
      (''Ambition/Goal/Dream'', ''has_ambition''),
      (''Fun fact / Unique thing'', ''has_fun_fact''),
      (''Strengths/Achievements'', ''has_strengths_or_achievements'')]"

text \<open>
  One pass of a loop of \<open>score_keywords\<close> over a list of (label, key) pairs, adding
  \<open>pts\<close> for every key the dictionary \<open>kw\<close> holds as true. The state is
  (score, present, missing).
\<close>

definition keyword_step ::
  "(string \<rightharpoonup> bool) \<Rightarrow> int \<Rightarrow> string \<times> string \<Rightarrow> int \<times> string list \<times> string list
     \<Rightarrow> int \<times> string list \<times> string list" where
  "keyword_step kw pts lk st =
     (case st of (score, present, missing) \<Rightarrow>
        if dict_get kw (snd lk) False then (score + pts, present @ [fst lk], missing)
        else (score, present, missing @ [fst lk]))"

definition score_keywords :: "string \<Rightarrow> int \<times> string list \<times> string list" where
  "score_keywords text =
     (let kw = map_of (detect_keywords text);
          st1 = fold (keyword_step kw 4) must_haves (0, [], [])
      in fold (keyword_step kw 2) good_to_have st1)"

definition score_flow :: "string list \<Rightarrow> string list \<Rightarrow> int" where
  "score_flow sents tags =
     (if sents = [] \<or> tags = [] then 0
      else
        let has_sal = ''SALUTATION'' \<in> set tags;
            has_basic = ''BASIC'' \<in> set tags;
            has_closing = ''CLOSING'' \<in> set tags
        in if has_sal \<and> has_basic \<and> has_closing then 5 else 0)"

definition score_speech_rate :: "(real \<Rightarrow> real) \<Rightarrow> int \<Rightarrow> real \<Rightarrow> int \<times> real" where
  "score_speech_rate rnd tw duration_sec =
     (if tw = 0 \<or> duration_sec \<le> 0 then (0, 0)
      else
        let wpm = rnd (rnd (rnd (real_of_int tw) * 60) / duration_sec);
            score = (if wpm < 80 \<or> wpm > 161 then 2
                     else if (81 \<le> wpm \<and> wpm \<le> 110) \<or> (141 \<le> wpm \<and> wpm \<le> 160) then 6
                     else if 111 \<le> wpm \<and> wpm \<le> 140 then 10
                     else 2)
        in (score, wpm))"

definition score_grammar :: "(real \<Rightarrow> real) \<Rightarrow> string \<Rightarrow> int \<Rightarrow> int \<times> real" where
  "score_grammar rnd text tw =
     (if tw = 0 then (0, 0)
      else
        let lower_text = str_lower text;
            lower_i_errors = int (str_count '' i '' lower_text);
            double_space_errors = int (str_count ''  '' text);
            weird_tokens = filter (\<lambda>tok. list_ex isdigit tok \<and> list_ex isalpha tok)
                             (str_split text);
            weird_punc_errors = int (length weird_tokens);
            errors_est = lower_i_errors + double_space_errors + weird_punc_errors;
            errors_per_100 =
              min (rnd (rnd (real_of_int errors_est / real_of_int (max tw 1)) * 100)) 100;
            gram_frac = rnd (1 - min (rnd (errors_per_100 / 20)) 1);
            score = (if gram_frac > rnd (8 / 10) then 10
                     else if rnd (6 / 10) \<le> gram_frac \<and> gram_frac \<le> rnd (8 / 10) then 8
                     else if rnd (4 / 10) \<le> gram_frac \<and> gram_frac < rnd (6 / 10) then 6
                     else if rnd (2 / 10) \<le> gram_frac \<and> gram_frac < rnd (4 / 10) then 4
                     else 2)
        in (score, errors_per_100))"

definition score_vocabulary :: "int \<Rightarrow> int \<Rightarrow> int \<times> real" where
  "score_vocabulary tw dw =
     (if tw = 0 then (0, 0)
      else
        let ttr = compute_ttr tw dw;
            score = (if 9 / 10 \<le> ttr \<and> ttr \<le> 1 then 10
                     else if 7 / 10 \<le> ttr \<and> ttr < 9 / 10 then 8
                     else if 5 / 10 \<le> ttr \<and> ttr < 7 / 10 then 6
                     else if 3 / 10 \<le> ttr \<and> ttr < 5 / 10 then 4
                     else 2)
        in (score, ttr))"

definition fillers :: "string list" where
  "fillers =
     [''um'', ''uh'', ''like'', ''you know'', ''so'', ''actually'', ''basically'', ''right'',
      ''i mean'', ''well'', ''kinda'', ''sort of'', ''okay'', ''hmm'', ''ah'']"

definition score_clarity :: "string \<Rightarrow> int \<Rightarrow> int \<times> real \<times> int" where
  "score_clarity text tw =
     (if tw = 0 then (0, 0, 0)
      else
        let filler_count = count_filler_words text fillers;
            filler_rate = (real_of_int filler_count / real_of_int tw) * 100;
            score = (if 0 \<le> filler_rate \<and> filler_rate \<le> 3 then 15
                     else if 4 \<le> filler_rate \<and> filler_rate \<le> 6 then 12
                     else if 7 \<le> filler_rate \<and> filler_rate \<le> 9 then 9
                     else if 10 \<le> filler_rate \<and> filler_rate \<le> 12 then 6
                     else 3)
        in (score, filler_rate, filler_count))"

text \<open>
  The sentiment analyser is an external library. It enters as a parameter:
  \<open>pos_of text\<close> is \<open>analyzer.polarity_scores(text).get("pos", 0.0)\<close>.
\<close>

definition score_engagement :: "(string \<Rightarrow> real) \<Rightarrow> string \<Rightarrow> int \<times> real" where
  "score_engagement pos_of text =
     (let pos = pos_of text;
          score = (if pos \<ge> 7 / 10 then 15
                   else if 5 / 10 \<le> pos \<and> pos < 7 / 10 then 12
                   else if 3 / 10 \<le> pos \<and> pos < 5 / 10 then 9
                   else if 1 / 10 \<le> pos \<and> pos < 3 / 10 then 6
                   else 3)
      in (score, pos))"

subsection \<open>Semantic similarity\<close>

definition CRITERION_DESCRIPTIONS :: "(string \<times> string) list" where
  "CRITERION_DESCRIPTIONS =
     [(''content'',
       ''A well-structured self introduction with a clear salutation, name, age, '' @
       ''class or school, family background, hobbies or interests, and a closing thank you.''),
      (''language'',
       ''Clear, grammatically correct English with appropriate sentence structure and '' @
       ''a reasonably varied vocabulary for a school student.''),
      (''clarity'',
       ''Fluent and easy to understand speech with minimal filler words, concise sentences, '' @
       ''and ideas expressed in a straightforward way.''),
      (''engagement'',
       ''A positive, enthusiastic, and friendly tone that feels genuine and engaging, '' @
       ''making the listener interested in the speaker.'')]"

text \<open>
  The embedding model is an external library. It enters as two parameters: \<open>encode\<close>
  is \<open>sem_model.encode\<close> and \<open>cos_sim a b\<close> is \<open>util.pytorch_cos_sim(a, b).item()\<close>.
\<close>

definition CRITERION_EMBEDDINGS :: "(string \<Rightarrow> 'e) \<Rightarrow> (string \<times> 'e) list" where
  "CRITERION_EMBEDDINGS encode = map (\<lambda>(key, desc). (key, encode desc)) CRITERION_DESCRIPTIONS"

definition compute_semantic_similarity ::
  "(string \<Rightarrow> 'e) \<Rightarrow> ('e \<Rightarrow> 'e \<Rightarrow> real) \<Rightarrow> string \<Rightarrow> string \<Rightarrow> real" where
  "compute_semantic_similarity encode cos_sim text criterion_key =
     (case map_of (CRITERION_EMBEDDINGS encode) criterion_key of
        None \<Rightarrow> 0
      | Some crit_emb \<Rightarrow>
          let text_emb = encode text;
              sim = cos_sim text_emb crit_emb
          in max 0 (min 1 sim))"

subsection \<open>The master scoring function\<close>

record result_stats =
  stats_total_words :: int
  stats_distinct_words :: int
  stats_sentence_count :: int
  stats_tokens :: "string list"

record score_result =
  total_score :: int
  stats :: result_stats
  wpm :: real
  salutation_score :: int
  keyword_score :: int
  present_keywords :: "string list"
  missing_keywords :: "string list"
  flow_score :: int
  speech_score :: int
  grammar_score :: int
  errors_per_100 :: real
  vocab_score :: int
  ttr :: real
  clarity_score :: int
  filler_rate :: real
  filler_count :: int
  engagement_score :: int
  pos_prob :: real
  tags :: "string list"
  content_semantic :: real
  language_semantic :: real
  clarity_semantic :: real
  engagement_semantic :: real

definition score_transcript ::
  "(real \<Rightarrow> real) \<Rightarrow> (string \<Rightarrow> real) \<Rightarrow> (string \<Rightarrow> 'e) \<Rightarrow> ('e \<Rightarrow> 'e \<Rightarrow> real) \<Rightarrow> string \<Rightarrow> real \<Rightarrow> score_result" where
  "score_transcript rnd pos_of encode cos_sim text duration_sec =
     (let clean_text = preprocess_text text;
          st = get_basic_stats clean_text;
          sal = score_salutation clean_text;
          kws = score_keywords clean_text;
          tgs = detect_structure_tags (sentences st);
          flow = score_flow (sentences st) tgs;
          speech = score_speech_rate rnd (total_words st) duration_sec;
          grammar = score_grammar rnd text (total_words st);
          vocab = score_vocabulary (total_words st) (distinct_words st);
          clarity = score_clarity clean_text (total_words st);
          engagement = score_engagement pos_of text
      in \<lparr>total_score = sal + fst kws + flow + fst speech + fst grammar + fst vocab
                         + fst clarity + fst engagement,
          stats = \<lparr>stats_total_words = total_words st,
                   stats_distinct_words = distinct_words st,
                   stats_sentence_count = sentence_count st,
                   stats_tokens = tokens st\<rparr>,
          wpm = snd speech,
          salutation_score = sal,
          keyword_score = fst kws,
          present_keywords = fst (snd kws),
          missing_keywords = snd (snd kws),
          flow_score = flow,
          speech_score = fst speech,
          grammar_score = fst grammar,
          errors_per_100 = snd grammar,
          vocab_score = fst vocab,
          ttr = snd vocab,
          clarity_score = fst clarity,
          filler_rate = fst (snd clarity),
          filler_count = snd (snd clarity),
          engagement_score = fst engagement,
          pos_prob = snd engagement,
          tags = tgs,
          content_semantic = compute_semantic_similarity encode cos_sim clean_text ''content'',
          language_semantic = compute_semantic_similarity encode cos_sim clean_text ''language'',
          clarity_semantic = compute_semantic_similarity encode cos_sim clean_text ''clarity'',
          engagement_semantic =
            compute_semantic_similarity encode cos_sim clean_text ''engagement''\<rparr>)"

section \<open>Auxiliary notions for the proofs\<close>

text \<open>
  A string is whitespace-normal when every whitespace character in it is a single
  space that is not followed by another whitespace character.
\<close>

fun ws_normal :: "string \<Rightarrow> bool" where
  "ws_normal [] = True"
| "ws_normal (c # cs) =
     (if isspace c
      then c = CHR '' '' \<and> (case cs of [] \<Rightarrow> True | d # _ \<Rightarrow> \<not> isspace d) \<and> ws_normal cs
      else ws_normal cs)"

section \<open>Ranges of the sub-scores\<close>

lemma detect_salutation_level_range: "detect_salutation_level text \<in> {0, 2, 4, 5}"
  by (simp add: detect_salutation_level_def Let_def split: list.split)

lemma keyword_fold_score:
  "fst (fold (keyword_step kw pts) xs st)
     = fst st + pts * int (length (filter (\<lambda>lk. dict_get kw (snd lk) False) xs))"
proof (induction xs arbitrary: st)
  case Nil
  show ?case by simp
next
  case (Cons x xs)
  have step: "fst (keyword_step kw pts x st)
                = fst st + (if dict_get kw (snd x) False then pts else 0)"
    by (cases st) (simp add: keyword_step_def)
  have "fst (fold (keyword_step kw pts) (x # xs) st)
          = fst (fold (keyword_step kw pts) xs (keyword_step kw pts x st))"
    by simp
  also have "\<dots> = fst (keyword_step kw pts x st)
                + pts * int (length (filter (\<lambda>lk. dict_get kw (snd lk) False) xs))"
    by (rule Cons.IH)
  finally show ?case
    by (simp add: step algebra_simps)
qed

lemma score_keywords_value:
  "fst (score_keywords text)
     = 4 * int (length (filter (\<lambda>lk. dict_get (map_of (detect_keywords text)) (snd lk) False) must_haves))
     + 2 * int (length (filter (\<lambda>lk. dict_get (map_of (detect_keywords text)) (snd lk) False) good_to_have))"
  by (simp add: score_keywords_def Let_def keyword_fold_score)

lemma score_keywords_range: "0 \<le> fst (score_keywords text) \<and> fst (score_keywords text) \<le> 30"
proof -
  let ?kw = "map_of (detect_keywords text)"
  have a: "length (filter (\<lambda>lk. dict_get ?kw (snd lk) False) must_haves) \<le> 5"
    using length_filter_le [of _ must_haves] by (simp add: must_haves_def del: length_filter_le)
  have b: "length (filter (\<lambda>lk. dict_get ?kw (snd lk) False) good_to_have) \<le> 5"
    using length_filter_le [of _ good_to_have] by (simp add: good_to_have_def del: length_filter_le)
  show ?thesis using a b unfolding score_keywords_value by linarith
qed

lemma score_flow_range: "score_flow sents tgs \<in> {0, 5}"
  by (simp add: score_flow_def Let_def)

lemma score_speech_rate_range: "fst (score_speech_rate rnd tw d) \<in> {0, 2, 6, 10}"
  unfolding score_speech_rate_def Let_def
  by (simp only: fst_conv insert_iff empty_iff semiring_norm simp_thms split: if_split)

lemma score_grammar_range: "fst (score_grammar rnd text tw) \<in> {0, 2, 4, 6, 8, 10}"
  unfolding score_grammar_def Let_def
  by (simp only: fst_conv insert_iff empty_iff semiring_norm simp_thms split: if_split)

lemma score_vocabulary_range: "fst (score_vocabulary tw dw) \<in> {0, 2, 4, 6, 8, 10}"
  unfolding score_vocabulary_def Let_def
  by (simp only: fst_conv insert_iff empty_iff semiring_norm simp_thms split: if_split)

lemma score_clarity_range: "fst (score_clarity text tw) \<in> {0, 3, 6, 9, 12, 15}"
  unfolding score_clarity_def Let_def
  by (simp only: fst_conv insert_iff empty_iff semiring_norm simp_thms split: if_split)

lemma score_engagement_range: "fst (score_engagement pos_of text) \<in> {3, 6, 9, 12, 15}"
  unfolding score_engagement_def Let_def
  by (simp only: fst_conv insert_iff empty_iff semiring_norm simp_thms split: if_split)

section \<open>The total score\<close>

text \<open>
  Claim C1. For every transcript and duration, the \<open>total_score\<close> of the record that
  \<open>score_transcript\<close> returns is the sum of its eight sub-score fields, and it lies
  between 0 and 100. The rounding of the float arithmetic, the sentiment analyser and
  the embedding model are arbitrary.
\<close>

theorem total_score_sum_and_range:
  fixes rnd :: "real \<Rightarrow> real" and pos_of :: "string \<Rightarrow> real" and encode :: "string \<Rightarrow> 'e" and cos_sim :: "'e \<Rightarrow> 'e \<Rightarrow> real"
  defines "r \<equiv> (\<lambda>text d. score_transcript rnd pos_of encode cos_sim text d)"
  shows "total_score (r text d)
           = salutation_score (r text d) + keyword_score (r text d) + flow_score (r text d)
             + speech_score (r text d) + grammar_score (r text d) + vocab_score (r text d)
             + clarity_score (r text d) + engagement_score (r text d)
         \<and> 0 \<le> total_score (r text d) \<and> total_score (r text d) \<le> 100"
proof -
  define c where "c = preprocess_text text"
  define st where "st = get_basic_stats c"
  have sal: "0 \<le> score_salutation c \<and> score_salutation c \<le> 5"
    using detect_salutation_level_range [of c] by (auto simp: score_salutation_def)
  have kw: "0 \<le> fst (score_keywords c) \<and> fst (score_keywords c) \<le> 30"
    by (rule score_keywords_range)
  have fl: "0 \<le> score_flow (sentences st) (detect_structure_tags (sentences st))
            \<and> score_flow (sentences st) (detect_structure_tags (sentences st)) \<le> 5"
    using score_flow_range [of "sentences st" "detect_structure_tags (sentences st)"] by auto
  have sp: "0 \<le> fst (score_speech_rate rnd (total_words st) d)
            \<and> fst (score_speech_rate rnd (total_words st) d) \<le> 10"
    using score_speech_rate_range [of rnd "total_words st" d] by auto
  have gr: "0 \<le> fst (score_grammar rnd text (total_words st))
            \<and> fst (score_grammar rnd text (total_words st)) \<le> 10"
    using score_grammar_range [of rnd "text" "total_words st"] by auto
  have vo: "0 \<le> fst (score_vocabulary (total_words st) (distinct_words st))
            \<and> fst (score_vocabulary (total_words st) (distinct_words st)) \<le> 10"
    using score_vocabulary_range [of "total_words st" "distinct_words st"] by auto
  have cl: "0 \<le> fst (score_clarity c (total_words st))
            \<and> fst (score_clarity c (total_words st)) \<le> 15"
    using score_clarity_range [of c "total_words st"] by auto
  have en: "0 \<le> fst (score_engagement pos_of text) \<and> fst (score_engagement pos_of text) \<le> 15"
    using score_engagement_range [of pos_of "text"] by auto
  have tot: "total_score (r text d)
               = score_salutation c + fst (score_keywords c)
                 + score_flow (sentences st) (detect_structure_tags (sentences st))
                 + fst (score_speech_rate rnd (total_words st) d)
                 + fst (score_grammar rnd text (total_words st))
                 + fst (score_vocabulary (total_words st) (distinct_words st))
                 + fst (score_clarity c (total_words st))
                 + fst (score_engagement pos_of text)"
    by (simp add: r_def score_transcript_def Let_def c_def st_def)
  have parts: "salutation_score (r text d) = score_salutation c"
    "keyword_score (r text d) = fst (score_keywords c)"
    "flow_score (r text d) = score_flow (sentences st) (detect_structure_tags (sentences st))"
    "speech_score (r text d) = fst (score_speech_rate rnd (total_words st) d)"
    "grammar_score (r text d) = fst (score_grammar rnd text (total_words st))"
    "vocab_score (r text d) = fst (score_vocabulary (total_words st) (distinct_words st))"
    "clarity_score (r text d) = fst (score_clarity c (total_words st))"
    "engagement_score (r text d) = fst (score_engagement pos_of text)"
    by (simp_all add: r_def score_transcript_def Let_def c_def st_def)
  show ?thesis
    unfolding parts tot using sal kw fl sp gr vo cl en by linarith
qed


text \<open>
  Claim C10. Whatever the sentiment analyser returns, \<open>score_engagement\<close> gives one of
  3, 6, 9, 12, 15, so never 0; the total score of \<open>score_transcript\<close> is therefore at
  least 3 for every transcript and duration, the empty transcript with duration 0
  included.
\<close>

theorem engagement_at_least_three:
  fixes rnd :: "real \<Rightarrow> real" and pos_of :: "string \<Rightarrow> real" and encode :: "string \<Rightarrow> 'e" and cos_sim :: "'e \<Rightarrow> 'e \<Rightarrow> real"
  shows "fst (score_engagement pos_of text) \<in> {3, 6, 9, 12, 15}
         \<and> fst (score_engagement pos_of text) \<noteq> 0
         \<and> 3 \<le> total_score (score_transcript rnd pos_of encode cos_sim text d)
         \<and> 3 \<le> total_score (score_transcript rnd pos_of encode cos_sim [] 0)"
proof -
  have en: "fst (score_engagement pos_of t) \<in> {3, 6, 9, 12, 15}" for t
    by (rule score_engagement_range)
  have low: "3 \<le> total_score (score_transcript rnd pos_of encode cos_sim t x)" for t x
  proof -
    define c where "c = preprocess_text t"
    define st where "st = get_basic_stats c"
    have "0 \<le> score_salutation c"
      using detect_salutation_level_range [of c] by (auto simp: score_salutation_def)
    moreover have "0 \<le> fst (score_keywords c)"
      using score_keywords_range [of c] by simp
    moreover have "0 \<le> score_flow (sentences st) (detect_structure_tags (sentences st))"
      using score_flow_range [of "sentences st" "detect_structure_tags (sentences st)"] by auto
    moreover have "0 \<le> fst (score_speech_rate rnd (total_words st) x)"
      using score_speech_rate_range [of rnd "total_words st" x] by auto
    moreover have "0 \<le> fst (score_grammar rnd t (total_words st))"
      using score_grammar_range [of rnd t "total_words st"] by auto
    moreover have "0 \<le> fst (score_vocabulary (total_words st) (distinct_words st))"
      using score_vocabulary_range [of "total_words st" "distinct_words st"] by auto
    moreover have "0 \<le> fst (score_clarity c (total_words st))"
      using score_clarity_range [of c "total_words st"] by auto
    moreover have "3 \<le> fst (score_engagement pos_of t)"
      using en [of t] by auto
    moreover have "total_score (score_transcript rnd pos_of encode cos_sim t x)
               = score_salutation c + fst (score_keywords c)
                 + score_flow (sentences st) (detect_structure_tags (sentences st))
                 + fst (score_speech_rate rnd (total_words st) x)
                 + fst (score_grammar rnd t (total_words st))
                 + fst (score_vocabulary (total_words st) (distinct_words st))
                 + fst (score_clarity c (total_words st))
                 + fst (score_engagement pos_of t)"
      by (simp add: score_transcript_def Let_def c_def st_def)
    ultimately show ?thesis by linarith
  qed
  have ne: "fst (score_engagement pos_of text) \<noteq> 0"
    using en [of "text"] by auto
  show ?thesis
    using en [of "text"] ne low [of "text" d] low [of "[]" 0] by blast
qed

section \<open>Speech rate\<close>

text \<open>
  Claim C3. For a positive word count and a positive duration, \<open>score_speech_rate\<close>
  returns as wpm the double it computes for words * 60 / duration and scores that
  value: below 80 or above 161 gives 2; 81 to 110 or 141 to 160 gives 6; 111 to 140
  gives 10; the remaining values (from 80 up to 81, between 110 and 111, between 140
  and 141, above 160 up to 161) give 2. This holds for every rounding. With a rounding
  that returns every integer up to 2 ^ 53 unchanged, as IEEE 754 does, 150 words in 60
  seconds score 6 and 130 words in 60 seconds score 10. With no words or a duration
  that is not positive the result is score 0 and wpm 0.
\<close>

theorem score_speech_rate_bands:
  "(0 < tw \<and> 0 < d \<longrightarrow>
      (let w = rnd (rnd (rnd (real_of_int tw) * 60) / d)
       in snd (score_speech_rate rnd tw d) = w
          \<and> (w < 80 \<or> 161 < w \<longrightarrow> fst (score_speech_rate rnd tw d) = 2)
          \<and> ((81 \<le> w \<and> w \<le> 110) \<or> (141 \<le> w \<and> w \<le> 160)
                \<longrightarrow> fst (score_speech_rate rnd tw d) = 6)
          \<and> (111 \<le> w \<and> w \<le> 140 \<longrightarrow> fst (score_speech_rate rnd tw d) = 10)
          \<and> ((80 \<le> w \<and> w < 81) \<or> (110 < w \<and> w < 111) \<or> (140 < w \<and> w < 141)
              \<or> (160 < w \<and> w \<le> 161)
                \<longrightarrow> fst (score_speech_rate rnd tw d) = 2)))
   \<and> ((\<forall>n::int. \<bar>n\<bar> \<le> 2 ^ 53 \<longrightarrow> rnd (real_of_int n) = real_of_int n)
        \<longrightarrow> score_speech_rate rnd 150 60 = (6, 150)
            \<and> score_speech_rate rnd 130 60 = (10, 130))
   \<and> (tw = 0 \<or> d \<le> 0 \<longrightarrow> score_speech_rate rnd tw d = (0, 0))"
proof -
  define w where "w = rnd (rnd (rnd (real_of_int tw) * 60) / d)"
  have eq: "score_speech_rate rnd tw d =
        ((if w < 80 \<or> w > 161 then 2
          else if (81 \<le> w \<and> w \<le> 110) \<or> (141 \<le> w \<and> w \<le> 160) then 6
          else if 111 \<le> w \<and> w \<le> 140 then 10 else 2), w)"
    if "0 < tw \<and> 0 < d"
    using that by (simp add: score_speech_rate_def Let_def w_def)
  have bands: "0 < tw \<and> 0 < d \<longrightarrow>
      (let w = rnd (rnd (rnd (real_of_int tw) * 60) / d)
       in snd (score_speech_rate rnd tw d) = w
          \<and> (w < 80 \<or> 161 < w \<longrightarrow> fst (score_speech_rate rnd tw d) = 2)
          \<and> ((81 \<le> w \<and> w \<le> 110) \<or> (141 \<le> w \<and> w \<le> 160)
                \<longrightarrow> fst (score_speech_rate rnd tw d) = 6)
          \<and> (111 \<le> w \<and> w \<le> 140 \<longrightarrow> fst (score_speech_rate rnd tw d) = 10)
          \<and> ((80 \<le> w \<and> w < 81) \<or> (110 < w \<and> w < 111) \<or> (140 < w \<and> w < 141)
              \<or> (160 < w \<and> w \<le> 161)
                \<longrightarrow> fst (score_speech_rate rnd tw d) = 2))"
  proof
    assume h: "0 < tw \<and> 0 < d"
    show "let w = rnd (rnd (rnd (real_of_int tw) * 60) / d)
       in snd (score_speech_rate rnd tw d) = w
          \<and> (w < 80 \<or> 161 < w \<longrightarrow> fst (score_speech_rate rnd tw d) = 2)
          \<and> ((81 \<le> w \<and> w \<le> 110) \<or> (141 \<le> w \<and> w \<le> 160)
                \<longrightarrow> fst (score_speech_rate rnd tw d) = 6)
          \<and> (111 \<le> w \<and> w \<le> 140 \<longrightarrow> fst (score_speech_rate rnd tw d) = 10)
          \<and> ((80 \<le> w \<and> w < 81) \<or> (110 < w \<and> w < 111) \<or> (140 < w \<and> w < 141)
              \<or> (160 < w \<and> w \<le> 161)
                \<longrightarrow> fst (score_speech_rate rnd tw d) = 2)"
      unfolding Let_def w_def [symmetric] eq [OF h] by auto
  qed
  have ex: "score_speech_rate rnd 150 60 = (6, 150) \<and> score_speech_rate rnd 130 60 = (10, 130)"
    if ints: "\<forall>n::int. \<bar>n\<bar> \<le> 2 ^ 53 \<longrightarrow> rnd (real_of_int n) = real_of_int n"
  proof -
    have r: "rnd (real_of_int n) = real_of_int n" if "\<bar>n\<bar> \<le> 9000" for n
    proof -
      have "(9000::int) \<le> 2 ^ 53" by simp
      then have "\<bar>n\<bar> \<le> 2 ^ 53" using that by linarith
      then show ?thesis using ints by blast
    qed
    have r150: "rnd 150 = 150" using r [of 150] by simp
    have r9000: "rnd 9000 = 9000" using r [of 9000] by simp
    have r130: "rnd 130 = 130" using r [of 130] by simp
    have r7800: "rnd 7800 = 7800" using r [of 7800] by simp
    have a: "score_speech_rate rnd 150 60 = (6, 150)"
      by (simp add: score_speech_rate_def Let_def r150 r9000)
    have b: "score_speech_rate rnd 130 60 = (10, 130)"
      by (simp add: score_speech_rate_def Let_def r130 r7800)
    show ?thesis using a b by blast
  qed
  have guard: "tw = 0 \<or> d \<le> 0 \<longrightarrow> score_speech_rate rnd tw d = (0, 0)"
    by (simp add: score_speech_rate_def)
  show ?thesis using bands ex guard by blast
qed

text \<open>
  A rounding to multiples of 1 / 1024 returns integers unchanged, and it takes the
  exact quotient of 6000 and 42.857, which lies just above 140, to 140.
\<close>

lemma fixed_point_rounding_ints:
  "(\<lambda>x::real. real_of_int (round (x * 1024)) / 1024) (real_of_int n) = real_of_int n"
proof -
  have "real_of_int n * 1024 = real_of_int (n * 1024)" by simp
  then have "round (real_of_int n * 1024) = n * 1024" by (simp only: round_of_int)
  then show ?thesis by simp
qed

lemma fixed_point_rounding_140:
  "(\<lambda>x::real. real_of_int (round (x * 1024)) / 1024) (6000 / (42857 / 1000)) = 140"
proof -
  have "round ((6000 / (42857 / 1000)) * 1024 :: real) = 143360"
    by (rule round_unique) simp_all
  then show ?thesis by simp
qed

theorem score_speech_rate_bands_witness:
  "(let R = (\<lambda>x::real. real_of_int (round (x * 1024)) / 1024)
    in score_speech_rate R 150 60 = (6, 150)
       \<and> score_speech_rate R 100 (42857 / 1000) = (10, 140)
       \<and> score_speech_rate R 0 60 = (0, 0)
       \<and> score_speech_rate R 100 0 = (0, 0))"
proof -
  define R where "R = (\<lambda>x::real. real_of_int (round (x * 1024)) / 1024)"
  have Ri: "\<forall>n::int. \<bar>n\<bar> \<le> 2 ^ 53 \<longrightarrow> R (real_of_int n) = real_of_int n"
    unfolding R_def using fixed_point_rounding_ints by blast
  have R100: "R 100 = 100" using fixed_point_rounding_ints [of 100] by (simp add: R_def)
  have R6000: "R 6000 = 6000" using fixed_point_rounding_ints [of 6000] by (simp add: R_def)
  have R140: "R (6000 / (42857 / 1000)) = 140"
    using fixed_point_rounding_140 by (simp add: R_def)
  then have R140n: "R (6000000 / 42857) = 140" by simp
  have a: "score_speech_rate R 150 60 = (6, 150)"
    using score_speech_rate_bands [of 150 60 R] Ri by blast
  have "snd (score_speech_rate R 100 (42857 / 1000)) = 140
        \<and> fst (score_speech_rate R 100 (42857 / 1000)) = 10"
    using score_speech_rate_bands [of 100 "42857 / 1000" R]
    by (simp add: Let_def R100 R6000 R140n)
  then have b: "score_speech_rate R 100 (42857 / 1000) = (10, 140)"
    by (simp add: prod_eq_iff)
  have c: "score_speech_rate R 0 60 = (0, 0)"
    using score_speech_rate_bands [of 0 60 R] by simp
  have d: "score_speech_rate R 100 0 = (0, 0)"
    using score_speech_rate_bands [of 100 0 R] by simp
  show ?thesis
    using a b c d unfolding R_def Let_def by blast
qed

section \<open>Flow\<close>

text \<open>
  Claim C6 as stated, for every sentence list and every tag list, fails: with an empty
  sentence list the guard of \<open>score_flow\<close> returns 0 although the tag list holds all
  three of SALUTATION, BASIC and CLOSING.
\<close>

theorem score_flow_empty_sentences_counterexample:
  "score_flow [] [''SALUTATION'', ''BASIC'', ''CLOSING''] = 0
   \<and> ''SALUTATION'' \<in> set [''SALUTATION'', ''BASIC'', ''CLOSING'']
   \<and> ''BASIC'' \<in> set [''SALUTATION'', ''BASIC'', ''CLOSING'']
   \<and> ''CLOSING'' \<in> set [''SALUTATION'', ''BASIC'', ''CLOSING'']"
  by (simp add: score_flow_def)

text \<open>
  Claim C6, amended. For every non-empty sentence list and every tag list,
  \<open>score_flow\<close> returns 5 exactly when the tags contain SALUTATION, BASIC and CLOSING
  (in any order, whatever other tags there are), and 0 otherwise; for an empty sentence
  list it returns 0. When the tags are those \<open>detect_structure_tags\<close> computes from
  the sentences, as in \<open>score_transcript\<close>, the equivalence holds for every sentence
  list.
\<close>

theorem score_flow_iff:
  "(sents \<noteq> [] \<longrightarrow>
      (score_flow sents tgs = 5 \<longleftrightarrow>
         ''SALUTATION'' \<in> set tgs \<and> ''BASIC'' \<in> set tgs \<and> ''CLOSING'' \<in> set tgs)
      \<and> (score_flow sents tgs \<noteq> 5 \<longrightarrow> score_flow sents tgs = 0))
   \<and> score_flow [] tgs = 0
   \<and> (score_flow sents (detect_structure_tags sents) = 5 \<longleftrightarrow>
         ''SALUTATION'' \<in> set (detect_structure_tags sents)
         \<and> ''BASIC'' \<in> set (detect_structure_tags sents)
         \<and> ''CLOSING'' \<in> set (detect_structure_tags sents))
   \<and> (score_flow sents (detect_structure_tags sents) \<noteq> 5
         \<longrightarrow> score_flow sents (detect_structure_tags sents) = 0)"
proof -
  have a: "sents \<noteq> [] \<longrightarrow>
      (score_flow sents tgs = 5 \<longleftrightarrow>
         ''SALUTATION'' \<in> set tgs \<and> ''BASIC'' \<in> set tgs \<and> ''CLOSING'' \<in> set tgs)
      \<and> (score_flow sents tgs \<noteq> 5 \<longrightarrow> score_flow sents tgs = 0)"
    by (cases tgs) (simp_all add: score_flow_def Let_def)
  have b: "score_flow [] tgs = 0"
    by (simp add: score_flow_def)
  have c: "score_flow sents (detect_structure_tags sents) = 5 \<longleftrightarrow>
         ''SALUTATION'' \<in> set (detect_structure_tags sents)
         \<and> ''BASIC'' \<in> set (detect_structure_tags sents)
         \<and> ''CLOSING'' \<in> set (detect_structure_tags sents)"
    by (cases sents) (simp_all add: score_flow_def Let_def detect_structure_tags_def)
  have d: "score_flow sents (detect_structure_tags sents) \<noteq> 5
         \<longrightarrow> score_flow sents (detect_structure_tags sents) = 0"
    by (simp add: score_flow_def Let_def)
  show ?thesis using a b c d by blast
qed

theorem score_flow_iff_witness:
  "score_flow [''my name is a'', ''a'', ''thank you'', ''my family'', ''hello'']
     [''BASIC'', ''OTHER'', ''CLOSING'', ''ADDITIONAL'', ''SALUTATION''] = 5
   \<and> score_flow [''hello'', ''my name is a''] [''SALUTATION'', ''BASIC''] = 0"
  using score_flow_iff [of "[''my name is a'', ''a'', ''thank you'', ''my family'', ''hello'']"
          "[''BASIC'', ''OTHER'', ''CLOSING'', ''ADDITIONAL'', ''SALUTATION'']"]
        score_flow_iff [of "[''hello'', ''my name is a'']" "[''SALUTATION'', ''BASIC'']"]
  by simp

section \<open>Semantic similarity\<close>

text \<open>
  Claim C8. For every text and criterion key, \<open>compute_semantic_similarity\<close> returns a
  value between 0 and 1. For each of the four criteria, a raw cosine above 1 gives
  exactly 1, a raw cosine below 0 gives exactly 0, and a raw cosine between 0 and 1 is
  returned unchanged; an unknown key gives 0. The encoder and the cosine are arbitrary.
\<close>

theorem compute_semantic_similarity_clamped:
  fixes encode :: "string \<Rightarrow> 'e" and cos_sim :: "'e \<Rightarrow> 'e \<Rightarrow> real"
  shows "0 \<le> compute_semantic_similarity encode cos_sim text key
         \<and> compute_semantic_similarity encode cos_sim text key \<le> 1
         \<and> (\<forall>(k, desc) \<in> set CRITERION_DESCRIPTIONS.
              (1 < cos_sim (encode text) (encode desc)
                 \<longrightarrow> compute_semantic_similarity encode cos_sim text k = 1)
              \<and> (cos_sim (encode text) (encode desc) < 0
                 \<longrightarrow> compute_semantic_similarity encode cos_sim text k = 0)
              \<and> (0 \<le> cos_sim (encode text) (encode desc)
                   \<and> cos_sim (encode text) (encode desc) \<le> 1
                 \<longrightarrow> compute_semantic_similarity encode cos_sim text k
                       = cos_sim (encode text) (encode desc)))
         \<and> (key \<notin> fst ` set CRITERION_DESCRIPTIONS
              \<longrightarrow> compute_semantic_similarity encode cos_sim text key = 0)"
proof -
  have rng: "0 \<le> compute_semantic_similarity encode cos_sim text key
         \<and> compute_semantic_similarity encode cos_sim text key \<le> 1"
    by (simp add: compute_semantic_similarity_def Let_def split: option.split)
  have keys: "map_of (CRITERION_EMBEDDINGS encode) k = Some (encode desc)"
    if "(k, desc) \<in> set CRITERION_DESCRIPTIONS" for k desc
    using that by (auto simp: CRITERION_EMBEDDINGS_def CRITERION_DESCRIPTIONS_def)
  have cl: "\<forall>(k, desc) \<in> set CRITERION_DESCRIPTIONS.
              (1 < cos_sim (encode text) (encode desc)
                 \<longrightarrow> compute_semantic_similarity encode cos_sim text k = 1)
              \<and> (cos_sim (encode text) (encode desc) < 0
                 \<longrightarrow> compute_semantic_similarity encode cos_sim text k = 0)
              \<and> (0 \<le> cos_sim (encode text) (encode desc)
                   \<and> cos_sim (encode text) (encode desc) \<le> 1
                 \<longrightarrow> compute_semantic_similarity encode cos_sim text k
                       = cos_sim (encode text) (encode desc))"
  proof (clarify, intro conjI impI)
    fix k desc assume m: "(k, desc) \<in> set CRITERION_DESCRIPTIONS"
    note e = keys [OF m]
    { assume "1 < cos_sim (encode text) (encode desc)"
      then show "compute_semantic_similarity encode cos_sim text k = 1"
        by (simp add: compute_semantic_similarity_def Let_def e) }
    { assume "cos_sim (encode text) (encode desc) < 0"
      then show "compute_semantic_similarity encode cos_sim text k = 0"
        by (simp add: compute_semantic_similarity_def Let_def e) }
    { assume "0 \<le> cos_sim (encode text) (encode desc) \<and> cos_sim (encode text) (encode desc) \<le> 1"
      then show "compute_semantic_similarity encode cos_sim text k
                       = cos_sim (encode text) (encode desc)"
        by (simp add: compute_semantic_similarity_def Let_def e) }
  qed
  have dom: "fst ` set (CRITERION_EMBEDDINGS encode) = fst ` set CRITERION_DESCRIPTIONS"
    by (simp add: CRITERION_EMBEDDINGS_def CRITERION_DESCRIPTIONS_def)
  have un: "key \<notin> fst ` set CRITERION_DESCRIPTIONS
              \<longrightarrow> compute_semantic_similarity encode cos_sim text key = 0"
  proof
    assume "key \<notin> fst ` set CRITERION_DESCRIPTIONS"
    then have "map_of (CRITERION_EMBEDDINGS encode) key = None"
      unfolding dom [symmetric] by (simp add: map_of_eq_None_iff)
    then show "compute_semantic_similarity encode cos_sim text key = 0"
      by (simp add: compute_semantic_similarity_def)
  qed
  show ?thesis using rng cl un by blast
qed

theorem compute_semantic_similarity_clamped_witness:
  "compute_semantic_similarity (\<lambda>s. length s) (\<lambda>a b. 2) ''hello'' ''content'' = 1
   \<and> compute_semantic_similarity (\<lambda>s. length s) (\<lambda>a b. - 1) ''hello'' ''clarity'' = 0
   \<and> compute_semantic_similarity (\<lambda>s. length s) (\<lambda>a b. 1 / 2) ''hello'' ''engagement'' = 1 / 2
   \<and> compute_semantic_similarity (\<lambda>s. length s) (\<lambda>a b. 2) ''hello'' ''tone'' = 0"
  using compute_semantic_similarity_clamped [of "\<lambda>s. length s" "\<lambda>a b. 2" "''hello''" "''tone''"]
    compute_semantic_similarity_clamped [of "\<lambda>s. length s" "\<lambda>a b. - 1" "''hello''" "''tone''"]
    compute_semantic_similarity_clamped [of "\<lambda>s. length s" "\<lambda>a b. 1 / 2" "''hello''" "''tone''"]
  by (simp add: CRITERION_DESCRIPTIONS_def)


section \<open>Text normalisation\<close>

lemma isspace_lower_char: "isspace (lower_char c) = isspace c"
  by (simp add: lower_char_def isupper_def isspace_def Let_def)

lemma lower_char_space: "isspace c \<Longrightarrow> lower_char c = c"
  by (auto simp: lower_char_def isupper_def isspace_def Let_def)

lemma lower_char_idem: "lower_char (lower_char c) = lower_char c"
  by (simp add: lower_char_def isupper_def Let_def)

lemma str_lower_idem: "str_lower (str_lower s) = str_lower s"
  by (simp add: str_lower_def lower_char_idem)

lemma re_sub_ws_head:
  "re_sub_ws xs = [] \<longleftrightarrow> xs = []"
  "xs \<noteq> [] \<Longrightarrow> isspace (hd (re_sub_ws xs)) = isspace (hd xs)"
  by (cases xs; simp add: isspace_def)+

lemma ws_normal_re_sub_ws: "ws_normal (re_sub_ws s)"
proof (induction s rule: re_sub_ws.induct)
  case 1
  show ?case by simp
next
  case (2 c cs)
  show ?case
  proof (cases "isspace c")
    case True
    let ?r = "dropWhile isspace cs"
    have "ws_normal (re_sub_ws ?r)" using 2 True by simp
    moreover have "(case re_sub_ws ?r of [] \<Rightarrow> True | d # _ \<Rightarrow> \<not> isspace d)"
    proof (cases ?r)
      case Nil
      then show ?thesis by (simp del: dropWhile_eq_Nil_conv)
    next
      case (Cons d ds)
      then have "\<not> isspace d" by (metis dropWhile_eq_Cons_conv)
      then show ?thesis using Cons by simp
    qed
    ultimately show ?thesis using True by (simp add: isspace_def)
  next
    case False
    then show ?thesis using 2 by simp
  qed
qed

lemma ws_normal_fixed: "ws_normal s \<Longrightarrow> re_sub_ws s = s"
proof (induction s rule: re_sub_ws.induct)
  case 1
  show ?case by simp
next
  case (2 c cs)
  show ?case
  proof (cases "isspace c")
    case True
    then have c: "c = CHR '' ''" and hd: "(case cs of [] \<Rightarrow> True | d # _ \<Rightarrow> \<not> isspace d)"
      and n: "ws_normal cs"
      using 2 by simp_all
    have d: "dropWhile isspace cs = cs" using hd by (cases cs) simp_all
    show ?thesis using 2 True c n d by simp
  next
    case False
    then show ?thesis using 2 by simp
  qed
qed

lemma ws_normal_only_space: "ws_normal s \<Longrightarrow> c \<in> set s \<Longrightarrow> isspace c \<Longrightarrow> c = CHR '' ''"
  by (induction s) (auto split: if_splits)

lemma ws_normal_replace:
  assumes "ws_normal s" "isspace a" "a \<noteq> CHR '' ''"
  shows "str_replace_char a b s = s"
proof -
  have "a \<notin> set s" using assms ws_normal_only_space by blast
  then show ?thesis unfolding str_replace_char_def by (induction s) auto
qed

lemma ws_normal_append_left: "ws_normal (xs @ ys) \<Longrightarrow> ws_normal xs"
proof (induction xs)
  case Nil
  show ?case by simp
next
  case (Cons x xs)
  then show ?case by (cases xs) (auto split: if_splits)
qed

lemma ws_normal_dropWhile: "ws_normal s \<Longrightarrow> ws_normal (dropWhile P s)"
  by (induction s) (auto split: if_splits)

lemma ws_normal_strip: "ws_normal s \<Longrightarrow> ws_normal (str_strip s)"
proof -
  assume a: "ws_normal s"
  let ?d = "dropWhile isspace s"
  have "?d = rev (dropWhile isspace (rev ?d)) @ rev (takeWhile isspace (rev ?d))"
    by (metis rev_append rev_rev_ident takeWhile_dropWhile_id)
  then have "ws_normal (rev (dropWhile isspace (rev ?d)))"
    using ws_normal_append_left ws_normal_dropWhile [OF a, of isspace] by metis
  then show ?thesis by (simp add: str_strip_def)
qed

lemma ws_normal_lower: "ws_normal s \<Longrightarrow> ws_normal (str_lower s)"
  unfolding str_lower_def
proof (induction s)
  case Nil
  show ?case by simp
next
  case (Cons c cs)
  then show ?case
    by (cases cs) (auto simp: isspace_lower_char lower_char_space split: if_splits)
qed

lemma str_strip_lower: "str_strip (str_lower s) = str_lower (str_strip s)"
proof -
  have e: "isspace \<circ> lower_char = isspace" by (rule ext) (simp add: isspace_lower_char)
  show ?thesis
    by (simp add: str_strip_def str_lower_def dropWhile_map rev_map e)
qed

lemma rstrip_decomp:
  "d = rev (dropWhile P (rev d)) @ rev (takeWhile P (rev d))"
  by (metis rev_append rev_rev_ident takeWhile_dropWhile_id)

lemma str_strip_fixed:
  assumes "s = [] \<or> (\<not> isspace (hd s) \<and> \<not> isspace (last s))"
  shows "str_strip s = s"
proof (cases "s = []")
  case True
  then show ?thesis by (simp add: str_strip_def)
next
  case False
  then have h: "\<not> isspace (hd s)" and l: "\<not> isspace (last s)" using assms by auto
  have a: "dropWhile isspace s = s" using h by (simp add: dropWhile_eq_self_iff)
  have "hd (rev s) = last s" using False by (simp add: hd_rev)
  then have b: "dropWhile isspace (rev s) = rev s" using l by (simp add: dropWhile_eq_self_iff)
  show ?thesis by (simp add: str_strip_def a b)
qed

lemma str_strip_ends:
  "str_strip s = [] \<or> (\<not> isspace (hd (str_strip s)) \<and> \<not> isspace (last (str_strip s)))"
proof (cases "str_strip s = []")
  case True
  then show ?thesis by simp
next
  case False
  let ?d = "dropWhile isspace s"
  let ?t = "rev (dropWhile isspace (rev ?d))"
  have t: "str_strip s = ?t" by (simp add: str_strip_def)
  have tne: "?t \<noteq> []" using False t by simp
  have dne: "?d \<noteq> []"
  proof
    assume "?d = []"
    then have "?t = []" by (simp only: rev.simps dropWhile.simps)
    then show False using tne by blast
  qed
  have "?d = ?t @ rev (takeWhile isspace (rev ?d))" by (rule rstrip_decomp)
  then have "hd ?d = hd (?t @ rev (takeWhile isspace (rev ?d)))" by simp
  also have "\<dots> = hd ?t" by (rule hd_append2 [OF tne])
  finally have "hd ?t = hd ?d" by simp
  moreover have "\<not> isspace (hd ?d)" using dne by (rule hd_dropWhile)
  ultimately have h: "\<not> isspace (hd ?t)" by simp
  have "dropWhile isspace (rev ?d) \<noteq> []" using tne by simp
  then have "\<not> isspace (hd (dropWhile isspace (rev ?d)))" by (rule hd_dropWhile)
  moreover have "last ?t = hd (dropWhile isspace (rev ?d))"
    using tne by (simp add: last_rev)
  ultimately have l: "\<not> isspace (last ?t)" by simp
  show ?thesis unfolding t using h l by blast
qed

lemma str_strip_idem: "str_strip (str_strip s) = str_strip s"
  by (rule str_strip_fixed) (rule str_strip_ends)

text \<open>
  Claim C9. \<open>preprocess_text\<close> is idempotent: normalising a normalised string returns
  it unchanged, for every string; and the empty string is normalised to the empty
  string.
\<close>

theorem preprocess_text_idempotent:
  "preprocess_text (preprocess_text s) = preprocess_text s \<and> preprocess_text [] = []"
proof -
  define n where "n = (\<lambda>x. str_lower (str_strip (re_sub_ws
             (str_replace_char (CHR 0x0A) (CHR '' '')
               (str_replace_char (CHR 0x0D) (CHR '' '') x)))))"
  have pre: "preprocess_text x = (if x = [] then [] else n x)" for x
    by (simp add: preprocess_text_def n_def)
  have norm: "ws_normal (n x)" for x
    unfolding n_def by (intro ws_normal_lower ws_normal_strip ws_normal_re_sub_ws)
  have again: "n (n x) = n x" for x
  proof -
    have r1: "str_replace_char (CHR 0x0D) (CHR '' '') (n x) = n x"
      by (rule ws_normal_replace [OF norm]) (simp_all add: isspace_def)
    have r2: "str_replace_char (CHR 0x0A) (CHR '' '') (n x) = n x"
      by (rule ws_normal_replace [OF norm]) (simp_all add: isspace_def)
    have r3: "re_sub_ws (n x) = n x"
      by (rule ws_normal_fixed [OF norm])
    have r4: "str_strip (n x) = n x"
      unfolding n_def by (simp add: str_strip_lower str_strip_idem)
    have r5: "str_lower (n x) = n x"
      unfolding n_def by (rule str_lower_idem)
    have "n (n x) = str_lower (str_strip (re_sub_ws
             (str_replace_char (CHR 0x0A) (CHR '' '')
               (str_replace_char (CHR 0x0D) (CHR '' '') (n x)))))"
      by (simp add: n_def)
    then show ?thesis by (simp only: r1 r2 r3 r4 r5)
  qed
  have "preprocess_text (preprocess_text s) = preprocess_text s"
    by (simp add: pre again)
  moreover have "preprocess_text [] = []" by (simp add: pre)
  ultimately show ?thesis by blast
qed


section \<open>Keyword coverage\<close>

lemma str_in_iff: "str_in p s \<longleftrightarrow> (\<exists>a b. s = a @ p @ b)"
proof (induction s)
  case Nil
  show ?case by auto
next
  case (Cons c cs)
  show ?case
  proof
    assume "str_in p (c # cs)"
    then consider "prefix p (c # cs)" | "str_in p cs" by auto
    then show "\<exists>a b. c # cs = a @ p @ b"
    proof cases
      case 1
      then obtain b where "c # cs = p @ b" by (auto simp: prefix_def)
      then have "c # cs = [] @ p @ b" by simp
      then show ?thesis by blast
    next
      case 2
      then obtain a b where "cs = a @ p @ b" using Cons.IH by blast
      then have "c # cs = (c # a) @ p @ b" by simp
      then show ?thesis by blast
    qed
  next
    assume "\<exists>a b. c # cs = a @ p @ b"
    then obtain a b where e: "c # cs = a @ p @ b" by blast
    show "str_in p (c # cs)"
    proof (cases a)
      case Nil
      then have "prefix p (c # cs)" using e by (simp add: prefix_def)
      then show ?thesis by simp
    next
      case (Cons x xs)
      then have "cs = xs @ p @ b" using e by simp
      then have "str_in p cs" using Cons.IH by blast
      then show ?thesis by simp
    qed
  qed
qed

lemma str_in_map: "str_in p s \<Longrightarrow> str_in (map f p) (map f s)"
  unfolding str_in_iff by (metis map_append)

lemma str_in_trans: "str_in q p \<Longrightarrow> str_in p s \<Longrightarrow> str_in q s"
  unfolding str_in_iff by (metis append.assoc)

lemma any_inI: "p \<in> set ps \<Longrightarrow> str_in p t \<Longrightarrow> any_in ps t"
  by (auto simp: any_in_def list_ex_iff)

lemma detect_keywords_lookup:
  "dict_get (map_of (detect_keywords t)) ''has_name'' False = any_in name_phrases (str_lower t)"
  "dict_get (map_of (detect_keywords t)) ''has_age'' False = str_in ''years old'' (str_lower t)"
  "dict_get (map_of (detect_keywords t)) ''has_school_class'' False
     = any_in school_phrases (str_lower t)"
  "dict_get (map_of (detect_keywords t)) ''has_family'' False
     = any_in family_phrases (str_lower t)"
  "dict_get (map_of (detect_keywords t)) ''has_hobbies'' False
     = any_in hobby_phrases (str_lower t)"
  by (simp_all add: detect_keywords_def Let_def dict_get_def)


text \<open>
  Claim C5. For every transcript, the score of \<open>score_keywords\<close> is 4 times the number
  of must-have concepts that \<open>detect_keywords\<close> reports plus 2 times the number of
  good-to-have concepts it reports, at most 30. A transcript that contains, in any
  letter case, "my name is", "14 years old", "class 9", "my parents" and "I enjoy
  reading" has all five must-haves, so its score is 20 plus 2 for each good-to-have.
\<close>

theorem score_keywords_points:
  fixes t :: string
  defines "hit \<equiv> (\<lambda>k. dict_get (map_of (detect_keywords t)) k False)"
  defines "must \<equiv> [''has_name'', ''has_age'', ''has_school_class'', ''has_family'',
                      ''has_hobbies'']"
  defines "good \<equiv> [''has_about_family'', ''has_location'', ''has_ambition'', ''has_fun_fact'',
                      ''has_strengths_or_achievements'']"
  shows "fst (score_keywords t)
           = 4 * int (length (filter hit must)) + 2 * int (length (filter hit good))
         \<and> fst (score_keywords t) \<le> 30
         \<and> (str_in ''my name is'' (str_lower t)
              \<and> str_in ''14 years old'' (str_lower t)
              \<and> str_in ''class 9'' (str_lower t)
              \<and> str_in ''my parents'' (str_lower t)
              \<and> str_in ''i enjoy reading'' (str_lower t)
            \<longrightarrow> length (filter hit must) = 5
                \<and> fst (score_keywords t) = 20 + 2 * int (length (filter hit good)))"
proof -
  have val: "fst (score_keywords t)
           = 4 * int (length (filter hit must)) + 2 * int (length (filter hit good))"
    unfolding score_keywords_value
    by (simp add: must_haves_def good_to_have_def hit_def must_def good_def)
  have le: "fst (score_keywords t) \<le> 30"
    using score_keywords_range [of t] by simp
  have part: "length (filter hit must) = 5
                \<and> fst (score_keywords t) = 20 + 2 * int (length (filter hit good))"
    if h: "str_in ''my name is'' (str_lower t)
              \<and> str_in ''14 years old'' (str_lower t)
              \<and> str_in ''class 9'' (str_lower t)
              \<and> str_in ''my parents'' (str_lower t)
              \<and> str_in ''i enjoy reading'' (str_lower t)"
  proof -
    have n: "hit ''has_name''"
      unfolding hit_def detect_keywords_lookup
      by (rule any_inI [of "''my name is''"]) (simp_all add: name_phrases_def h)
    have "str_in ''years old'' ''14 years old''" by simp
    then have a: "hit ''has_age''"
      unfolding hit_def detect_keywords_lookup using h str_in_trans by blast
    have "str_in ''class '' ''class 9''" by simp
    then have "str_in ''class '' (str_lower t)" using h str_in_trans by blast
    then have c: "hit ''has_school_class''"
      unfolding hit_def detect_keywords_lookup
      by (intro any_inI [of "''class ''"]) (simp_all add: school_phrases_def)
    have "str_in ''parents'' ''my parents''" by simp
    then have "str_in ''parents'' (str_lower t)" using h str_in_trans by blast
    then have f: "hit ''has_family''"
      unfolding hit_def detect_keywords_lookup
      by (intro any_inI [of "''parents''"]) (simp_all add: family_phrases_def)
    have "str_in ''i enjoy'' ''i enjoy reading''" by simp
    then have "str_in ''i enjoy'' (str_lower t)" using h str_in_trans by blast
    then have b: "hit ''has_hobbies''"
      unfolding hit_def detect_keywords_lookup
      by (intro any_inI [of "''i enjoy''"]) (simp_all add: hobby_phrases_def)
    have five: "length (filter hit must) = 5"
      by (simp add: must_def n a c f b)
    show ?thesis using five val by simp
  qed
  show ?thesis using val le part by blast
qed

theorem score_keywords_points_witness:
  "fst (score_keywords
     (''My name is Asha. I am 14 years old. I study in class 9. '' @
      ''I live in Pune with my parents. I enjoy reading.'')) = 22"
proof -
  let ?t = "''My name is Asha. I am 14 years old. I study in class 9. '' @
      ''I live in Pune with my parents. I enjoy reading.''"
  have h: "str_in ''my name is'' (str_lower ?t)
              \<and> str_in ''14 years old'' (str_lower ?t)
              \<and> str_in ''class 9'' (str_lower ?t)
              \<and> str_in ''my parents'' (str_lower ?t)
              \<and> str_in ''i enjoy reading'' (str_lower ?t)"
    by code_simp
  have g: "length (filter (\<lambda>k. dict_get (map_of (detect_keywords ?t)) k False)
             [''has_about_family'', ''has_location'', ''has_ambition'', ''has_fun_fact'',
              ''has_strengths_or_achievements'']) = 1"
    by code_simp
  show ?thesis
    using score_keywords_points [of ?t] h g by simp
qed


section \<open>Clarity\<close>












section \<open>Salutation\<close>

lemma str_strip_prefix_kept:
  assumes "s0 \<noteq> []" "\<not> isspace (hd s0)" "\<not> isspace (last s0)"
  shows "str_strip (s0 @ x) = s0 @ rev (dropWhile isspace (rev x))"
proof -
  have a: "dropWhile isspace (s0 @ x) = s0 @ x"
    using assms by (cases s0) simp_all
  have l: "dropWhile isspace (rev s0) = rev s0"
    using assms by (simp add: dropWhile_eq_self_iff hd_rev)
  have "dropWhile isspace (rev x @ rev s0) = dropWhile isspace (rev x) @ rev s0"
    using l by (simp add: dropWhile_append)
  then show ?thesis by (simp add: str_strip_def a)
qed

lemma re_split_punct_head:
  "\<exists>ys. re_split_punct s = takeWhile (\<lambda>x. \<not> is_terminator x) s # ys"
proof (cases "dropWhile (\<lambda>x. \<not> is_terminator x) s")
  case Nil
  then have tw: "takeWhile (\<lambda>x. \<not> is_terminator x) s = s"
    by (metis append_Nil2 takeWhile_dropWhile_id)
  have rs: "re_split_punct s = [s]"
    by (subst re_split_punct.simps) (simp only: Nil list.case)
  show ?thesis unfolding rs tw by blast
next
  case (Cons c cs)
  then show ?thesis by (subst re_split_punct.simps) simp
qed

lemma first_sentence:
  assumes "s0 \<noteq> []" "\<not> isspace (hd s0)" "\<not> isspace (last s0)"
    and "\<forall>c \<in> set s0. \<not> is_terminator c"
  shows "\<exists>u ys. sentences (get_basic_stats (s0 @ rest)) = (s0 @ u) # ys
                 \<and> (rest \<noteq> [] \<and> is_terminator (hd rest) \<longrightarrow> u = [])"
proof -
  define r where "r = rev (dropWhile isspace (rev rest))"
  define u0 where "u0 = takeWhile (\<lambda>x. \<not> is_terminator x) r"
  define u where "u = rev (dropWhile isspace (rev u0))"
  have clean: "str_strip (s0 @ rest) = s0 @ r"
    unfolding r_def by (rule str_strip_prefix_kept [OF assms(1-3)])
  have piece: "takeWhile (\<lambda>x. \<not> is_terminator x) (s0 @ r) = s0 @ u0"
    using assms(4) by (simp add: takeWhile_append u0_def)
  obtain ys where ys: "re_split_punct (s0 @ r) = (s0 @ u0) # ys"
    using re_split_punct_head [of "s0 @ r"] piece by auto
  have sp: "str_strip (s0 @ u0) = s0 @ u"
    unfolding u_def by (rule str_strip_prefix_kept [OF assms(1-3)])
  have ne: "s0 @ r \<noteq> []" using assms(1) by simp
  have sent: "sentences (get_basic_stats (s0 @ rest))
          = (s0 @ u) # map str_strip (filter (\<lambda>s. str_strip s \<noteq> []) ys)"
    using assms(1) by (simp add: get_basic_stats_def Let_def clean ys sp)
  have "u = []" if nonempty: "rest \<noteq> []" and tm: "is_terminator (hd rest)"
  proof -
    obtain p rs where rest: "rest = p # rs" using nonempty by (cases rest) auto
    have p: "is_terminator p" using tm rest by simp
    then have "\<not> isspace p" by (auto simp: is_terminator_def isspace_def)
    then have "dropWhile isspace (rev rs @ [p]) = dropWhile isspace (rev rs) @ [p]"
      by (simp add: dropWhile_append)
    then have "r = p # rev (dropWhile isspace (rev rs))"
      by (simp add: r_def rest)
    then have "u0 = []" using p by (simp add: u0_def)
    then show ?thesis by (simp add: u_def)
  qed
  then show ?thesis using sent by blast
qed

lemma str_in_append_left: "str_in p a \<Longrightarrow> str_in p (a @ b)"
  unfolding str_in_iff by (metis append.assoc)

lemma detect_salutation_level_first:
  assumes "sentences (get_basic_stats text) = s0 # ss"
  shows "detect_salutation_level text =
           (if any_in enthusiastic_phrases (str_lower s0) then 5
            else if any_in formal_greetings (str_lower s0) then 4
            else if any_in simple_greetings (str_lower s0) then 2
            else 0)"
proof -
  have "text \<noteq> []"
    using assms by (auto simp: get_basic_stats_def str_strip_def)
  then show ?thesis
    using assms by (simp add: detect_salutation_level_def Let_def)
qed

lemma detect_salutation_level_none:
  assumes "sentences (get_basic_stats text) = []"
  shows "detect_salutation_level text = 0"
  using assms by (simp add: detect_salutation_level_def)

lemma good_morning_prefix: "detect_salutation_level (''Good morning!'' @ rest) = 4"
proof -
  have "\<exists>u ys. sentences (get_basic_stats (''Good morning'' @ (CHR ''!'' # rest)))
                  = (''Good morning'' @ u) # ys
               \<and> (CHR ''!'' # rest \<noteq> [] \<and> is_terminator (hd (CHR ''!'' # rest)) \<longrightarrow> u = [])"
    by (rule first_sentence) (simp_all add: isspace_def is_terminator_def)
  then obtain ys where s: "sentences (get_basic_stats (''Good morning!'' @ rest))
                  = ''Good morning'' # ys"
    by (auto simp: is_terminator_def)
  have l: "str_lower ''Good morning'' = ''good morning''" by code_simp
  have e: "\<not> any_in enthusiastic_phrases ''good morning''" by code_simp
  have f: "any_in formal_greetings ''good morning''" by code_simp
  show ?thesis
    unfolding detect_salutation_level_first [OF s] l using e f by simp
qed

lemma hi_everyone_terminated:
  assumes "is_terminator p"
  shows "detect_salutation_level (''Hi everyone'' @ p # rest) = 2"
proof -
  have "\<exists>u ys. sentences (get_basic_stats (''Hi everyone'' @ (p # rest)))
                  = (''Hi everyone'' @ u) # ys
               \<and> (p # rest \<noteq> [] \<and> is_terminator (hd (p # rest)) \<longrightarrow> u = [])"
    by (rule first_sentence) (simp_all add: isspace_def is_terminator_def)
  then obtain ys where s: "sentences (get_basic_stats (''Hi everyone'' @ p # rest))
                  = ''Hi everyone'' # ys"
    using assms by auto
  have l: "str_lower ''Hi everyone'' = ''hi everyone''" by code_simp
  have e: "\<not> any_in enthusiastic_phrases ''hi everyone''" by code_simp
  have f: "\<not> any_in formal_greetings ''hi everyone''" by code_simp
  have g: "any_in simple_greetings ''hi everyone''" by code_simp
  show ?thesis
    unfolding detect_salutation_level_first [OF s] l using e f g by simp
qed

lemma hi_everyone_prefix: "detect_salutation_level (''Hi everyone'' @ rest) \<in> {2, 4, 5}"
proof -
  have "\<exists>u ys. sentences (get_basic_stats (''Hi everyone'' @ rest))
                  = (''Hi everyone'' @ u) # ys
               \<and> (rest \<noteq> [] \<and> is_terminator (hd rest) \<longrightarrow> u = [])"
    by (rule first_sentence) (simp_all add: isspace_def is_terminator_def)
  then obtain u ys where s: "sentences (get_basic_stats (''Hi everyone'' @ rest))
                  = (''Hi everyone'' @ u) # ys"
    by blast
  have "str_in ''hi'' (str_lower ''Hi everyone'')" by code_simp
  then have "str_in ''hi'' (str_lower (''Hi everyone'' @ u))"
    unfolding str_lower_def map_append by (rule str_in_append_left)
  then have g: "any_in simple_greetings (str_lower (''Hi everyone'' @ u))"
    by (intro any_inI [of "''hi''"]) (simp_all add: simple_greetings_def)
  show ?thesis
    unfolding detect_salutation_level_first [OF s] using g by simp
qed

lemma thrilled_prefix:
  "detect_salutation_level (''I am thrilled to introduce myself'' @ rest) = 5"
proof -
  have "\<exists>u ys. sentences (get_basic_stats (''I am thrilled to introduce myself'' @ rest))
                  = (''I am thrilled to introduce myself'' @ u) # ys
               \<and> (rest \<noteq> [] \<and> is_terminator (hd rest) \<longrightarrow> u = [])"
    by (rule first_sentence) (simp_all add: isspace_def is_terminator_def)
  then obtain u ys where
    s: "sentences (get_basic_stats (''I am thrilled to introduce myself'' @ rest))
                  = (''I am thrilled to introduce myself'' @ u) # ys"
    by blast
  have "str_in ''thrilled to introduce myself''
          (str_lower ''I am thrilled to introduce myself'')" by code_simp
  then have "str_in ''thrilled to introduce myself''
          (str_lower (''I am thrilled to introduce myself'' @ u))"
    unfolding str_lower_def map_append by (rule str_in_append_left)
  then have g: "any_in enthusiastic_phrases
                  (str_lower (''I am thrilled to introduce myself'' @ u))"
    by (intro any_inI [of "''thrilled to introduce myself''"])
       (simp_all add: enthusiastic_phrases_def)
  show ?thesis
    unfolding detect_salutation_level_first [OF s] using g by simp
qed

lemma hi_everyone_lowest:
  assumes "sentences (get_basic_stats (''Hi everyone'' @ rest)) = s0 # ss"
    and "\<not> any_in enthusiastic_phrases (str_lower s0)"
    and "\<not> any_in formal_greetings (str_lower s0)"
  shows "detect_salutation_level (''Hi everyone'' @ rest) = 2"
  using hi_everyone_prefix [of rest] assms
  unfolding detect_salutation_level_first [OF assms(1)]
  by (simp split: if_splits)

text \<open>
  Claim C4 as stated fails for texts starting "Hi everyone": when the first sentence
  goes on to a formal greeting, the formal tier is checked first and the score is 4,
  not 2.
\<close>

theorem hi_everyone_formal_counterexample:
  "prefix ''Hi everyone'' ''Hi everyone, good morning.''
   \<and> detect_salutation_level ''Hi everyone, good morning.'' = 4"
  by code_simp

text \<open>
  Claim C4, amended. \<open>detect_salutation_level\<close> looks at the first sentence only and
  checks the three tiers in order: an enthusiastic phrase gives 5, else a formal
  greeting gives 4, else one of "hello", "hi", "hey" gives 2, else 0; a text without
  sentences gives 0. Every text starting "Good morning!" scores 4, every text starting
  "I am thrilled to introduce myself" scores 5. A text starting "Hi everyone" scores 2
  when its first sentence holds no enthusiastic and no formal phrase, in particular
  when "Hi everyone" is directly followed by a full stop, an exclamation mark or a
  question mark; otherwise it scores 4 or 5.
\<close>

theorem detect_salutation_level_tiers:
  "(sentences (get_basic_stats text) = [] \<longrightarrow> detect_salutation_level text = 0)
   \<and> (\<forall>s0 ss. sentences (get_basic_stats text) = s0 # ss \<longrightarrow>
         detect_salutation_level text =
           (if any_in enthusiastic_phrases (str_lower s0) then 5
            else if any_in formal_greetings (str_lower s0) then 4
            else if any_in simple_greetings (str_lower s0) then 2
            else 0))
   \<and> simple_greetings = [''hello'', ''hi'', ''hey'']
   \<and> detect_salutation_level (''Good morning!'' @ rest) = 4
   \<and> detect_salutation_level (''I am thrilled to introduce myself'' @ rest) = 5
   \<and> (is_terminator p \<longrightarrow> detect_salutation_level (''Hi everyone'' @ p # rest) = 2)
   \<and> (\<forall>s0 ss. sentences (get_basic_stats (''Hi everyone'' @ rest)) = s0 # ss
                \<and> \<not> any_in enthusiastic_phrases (str_lower s0)
                \<and> \<not> any_in formal_greetings (str_lower s0)
         \<longrightarrow> detect_salutation_level (''Hi everyone'' @ rest) = 2)
   \<and> detect_salutation_level (''Hi everyone'' @ rest) \<in> {2, 4, 5}"
proof -
  have a: "sentences (get_basic_stats text) = [] \<longrightarrow> detect_salutation_level text = 0"
    using detect_salutation_level_none by blast
  have b: "\<forall>s0 ss. sentences (get_basic_stats text) = s0 # ss \<longrightarrow>
         detect_salutation_level text =
           (if any_in enthusiastic_phrases (str_lower s0) then 5
            else if any_in formal_greetings (str_lower s0) then 4
            else if any_in simple_greetings (str_lower s0) then 2
            else 0)"
    using detect_salutation_level_first by blast
  have c: "simple_greetings = [''hello'', ''hi'', ''hey'']"
    by (simp add: simple_greetings_def)
  have d: "is_terminator p \<longrightarrow> detect_salutation_level (''Hi everyone'' @ p # rest) = 2"
    using hi_everyone_terminated by blast
  have e: "\<forall>s0 ss. sentences (get_basic_stats (''Hi everyone'' @ rest)) = s0 # ss
                \<and> \<not> any_in enthusiastic_phrases (str_lower s0)
                \<and> \<not> any_in formal_greetings (str_lower s0)
         \<longrightarrow> detect_salutation_level (''Hi everyone'' @ rest) = 2"
    using hi_everyone_lowest by blast
  show ?thesis
    using a b c d e good_morning_prefix [of rest] thrilled_prefix [of rest]
      hi_everyone_prefix [of rest]
    by blast
qed

theorem detect_salutation_level_tiers_witness:
  "detect_salutation_level ''Hello there. Bye'' = 2
   \<and> detect_salutation_level ''...'' = 0
   \<and> detect_salutation_level ''Hi everyone. I am thrilled to be here'' = 2"
proof -
  have s: "sentences (get_basic_stats ''Hello there. Bye'') = [''Hello there'', ''Bye'']"
    by code_simp
  have n: "sentences (get_basic_stats ''...'') = []"
    by code_simp
  have t: "\<not> any_in enthusiastic_phrases (str_lower ''Hello there'')
           \<and> \<not> any_in formal_greetings (str_lower ''Hello there'')
           \<and> any_in simple_greetings (str_lower ''Hello there'')"
    by code_simp
  have p: "is_terminator (CHR ''.'')"
    by (simp add: is_terminator_def)
  have 1: "detect_salutation_level ''Hello there. Bye'' = 2"
    using detect_salutation_level_tiers [of "''Hello there. Bye''"] s t by simp
  have 2: "detect_salutation_level ''...'' = 0"
    using detect_salutation_level_tiers [of "''...''"] n by simp
  have 3: "detect_salutation_level ''Hi everyone. I am thrilled to be here'' = 2"
    using detect_salutation_level_tiers
            [where p = "CHR ''.''" and rest = "'' I am thrilled to be here''"] p
    by simp
  show ?thesis using 1 2 3 by blast
qed


section \<open>Degenerate input\<close>

lemma str_in_all_space:
  assumes "str_in p t" "\<forall>c \<in> set t. isspace c"
  shows "\<forall>c \<in> set p. isspace c"
  using assms unfolding str_in_iff by auto

lemma any_in_all_space:
  assumes "\<forall>c \<in> set t. isspace c" "\<forall>p \<in> set ps. p \<noteq> [] \<and> \<not> isspace (hd p)"
  shows "\<not> any_in ps t"
proof
  assume "any_in ps t"
  then obtain p where p: "p \<in> set ps" "str_in p t"
    by (auto simp: any_in_def list_ex_iff)
  then have "\<forall>c \<in> set p. isspace c" using str_in_all_space assms(1) by blast
  moreover have "p \<noteq> [] \<and> \<not> isspace (hd p)" using assms(2) p(1) by blast
  ultimately show False by (cases p) auto
qed

lemma str_lower_all_space: "\<forall>c \<in> set t. isspace c \<Longrightarrow> \<forall>c \<in> set (str_lower t). isspace c"
  by (simp add: str_lower_def isspace_lower_char)

lemma detect_keywords_all_space:
  assumes "\<forall>c \<in> set t. isspace c"
  shows "detect_keywords t =
     [(''has_name'', False), (''has_age'', False), (''has_school_class'', False),
      (''has_family'', False), (''has_hobbies'', False), (''has_about_family'', False),
      (''has_location'', False), (''has_ambition'', False), (''has_fun_fact'', False),
      (''has_strengths_or_achievements'', False)]"
proof -
  note sp = str_lower_all_space [OF assms]
  have 1: "\<not> any_in name_phrases (str_lower t)"
    by (rule any_in_all_space [OF sp]) (simp add: name_phrases_def isspace_def)
  have 2: "\<not> str_in ''years old'' (str_lower t)"
    using str_in_all_space [OF _ sp, of "''years old''"] by (auto simp: isspace_def)
  have 3: "\<not> any_in school_phrases (str_lower t)"
    by (rule any_in_all_space [OF sp]) (simp add: school_phrases_def isspace_def)
  have 4: "\<not> any_in family_phrases (str_lower t)"
    by (rule any_in_all_space [OF sp]) (simp add: family_phrases_def isspace_def)
  have 5: "\<not> any_in hobby_phrases (str_lower t)"
    by (rule any_in_all_space [OF sp]) (simp add: hobby_phrases_def isspace_def)
  have 6: "\<not> any_in about_family_phrases (str_lower t)"
    by (rule any_in_all_space [OF sp]) (simp add: about_family_phrases_def isspace_def)
  have 7: "\<not> any_in location_phrases (str_lower t)"
    by (rule any_in_all_space [OF sp]) (simp add: location_phrases_def isspace_def)
  have 8: "\<not> any_in ambition_phrases (str_lower t)"
    by (rule any_in_all_space [OF sp]) (simp add: ambition_phrases_def isspace_def)
  have 9: "\<not> any_in fun_fact_phrases (str_lower t)"
    by (rule any_in_all_space [OF sp]) (simp add: fun_fact_phrases_def isspace_def)
  have 10: "\<not> any_in strength_phrases (str_lower t)"
    by (rule any_in_all_space [OF sp]) (simp add: strength_phrases_def isspace_def)
  show ?thesis
    by (simp add: detect_keywords_def Let_def 1 2 3 4 5 6 7 8 9 10)
qed

lemma score_keywords_all_space:
  assumes "\<forall>c \<in> set t. isspace c"
  shows "fst (score_keywords t) = 0"
  by (simp add: score_keywords_def Let_def detect_keywords_all_space [OF assms]
        must_haves_def good_to_have_def keyword_step_def dict_get_def)

lemma str_strip_all_space:
  assumes "\<forall>c \<in> set t. isspace c"
  shows "str_strip t = []"
proof -
  have d: "dropWhile isspace t = []" using assms by simp
  show ?thesis unfolding str_strip_def d by simp
qed

lemma get_basic_stats_all_space:
  assumes "\<forall>c \<in> set t. isspace c"
  shows "get_basic_stats t
     = \<lparr>tokens = [], total_words = 0, distinct_words = 0, sentences = [], sentence_count = 0\<rparr>"
  by (simp add: get_basic_stats_def str_strip_all_space [OF assms])

lemma str_split_nonempty:
  assumes "\<not> (\<forall>c \<in> set s. isspace c)"
  shows "str_split s \<noteq> []"
proof -
  have "dropWhile isspace s \<noteq> []" using assms by simp
  then obtain c cs where "dropWhile isspace s = c # cs" by (cases "dropWhile isspace s") auto
  then show ?thesis by (subst str_split.simps) simp
qed

lemma total_words_zero_iff:
  "total_words (get_basic_stats t) = 0 \<longleftrightarrow> (\<forall>c \<in> set t. isspace c)"
proof
  assume "\<forall>c \<in> set t. isspace c"
  then show "total_words (get_basic_stats t) = 0"
    by (simp add: get_basic_stats_all_space)
next
  assume z: "total_words (get_basic_stats t) = 0"
  show "\<forall>c \<in> set t. isspace c"
  proof (rule ccontr)
    assume n: "\<not> (\<forall>c \<in> set t. isspace c)"
    have ne: "str_strip t \<noteq> []"
    proof
      assume "str_strip t = []"
      then have "\<forall>c \<in> set (dropWhile isspace t). isspace c"
        by (simp add: str_strip_def)
      moreover have "dropWhile isspace t \<noteq> []" using n by simp
      ultimately have "isspace (hd (dropWhile isspace t))" by (cases "dropWhile isspace t") auto
      then show False using hd_dropWhile \<open>dropWhile isspace t \<noteq> []\<close> by blast
    qed
    have "\<not> (\<forall>c \<in> set (str_strip t). isspace c)"
      using str_strip_ends [of t] ne by (cases "str_strip t") auto
    then have "str_split (str_strip t) \<noteq> []" by (rule str_split_nonempty)
    then show False using z ne by (simp add: get_basic_stats_def Let_def)
  qed
qed

lemma re_sub_ws_all_space:
  assumes "\<forall>c \<in> set x. isspace c"
  shows "re_sub_ws x = (if x = [] then [] else '' '')"
proof (cases x)
  case Nil
  then show ?thesis by simp
next
  case (Cons c cs)
  have c: "isspace c" using assms Cons by simp
  have d: "dropWhile isspace cs = []" using assms Cons by simp
  have "re_sub_ws (c # cs) = CHR '' '' # re_sub_ws (dropWhile isspace cs)"
    using c by simp
  also have "\<dots> = '' ''" unfolding d by simp
  finally show ?thesis using Cons by simp
qed

lemma preprocess_text_all_space:
  assumes "\<forall>c \<in> set t. isspace c"
  shows "preprocess_text t = []"
proof (cases "t = []")
  case True
  then show ?thesis by (simp add: preprocess_text_def)
next
  case False
  define r where "r = str_replace_char (CHR 0x0A) (CHR '' '')
               (str_replace_char (CHR 0x0D) (CHR '' '') t)"
  have sp1: "\<forall>c \<in> set (str_replace_char a (CHR '' '') x). isspace c"
    if "\<forall>c \<in> set x. isspace c" for a x
  proof
    fix c assume "c \<in> set (str_replace_char a (CHR '' '') x)"
    then have "c = CHR '' '' \<or> c \<in> set x"
      by (auto simp: str_replace_char_def split: if_splits)
    moreover have "isspace (CHR '' '')" by (simp add: isspace_def)
    ultimately show "isspace c" using that by blast
  qed
  have sp: "\<forall>c \<in> set r. isspace c"
    unfolding r_def by (intro sp1 assms)
  have "re_sub_ws r = [] \<or> re_sub_ws r = '' ''"
    using re_sub_ws_all_space [OF sp] by (cases "r = []") simp_all
  moreover have "str_strip [] = []" by (simp add: str_strip_def)
  moreover have "str_strip '' '' = []" by (simp add: str_strip_def isspace_def)
  ultimately have "str_strip (re_sub_ws r) = []" by auto
  then have "str_lower (str_strip (re_sub_ws r)) = []" by (simp add: str_lower_def)
  then show ?thesis using False by (simp add: preprocess_text_def r_def [symmetric])
qed

text \<open>
  Claim C2 as stated fails for the engagement scorer: on the empty transcript, with an
  analyser that reports no positive sentiment, \<open>score_engagement\<close> returns 3, not 0.
\<close>

theorem engagement_empty_counterexample:
  "fst (score_engagement (\<lambda>t. 0) []) = 3"
  by (simp add: score_engagement_def)

text \<open>
  Claim C2, amended. On an empty or whitespace-only transcript, which is exactly a
  transcript of zero words, the scorers for salutation, keywords, flow, speech rate,
  grammar, vocabulary and clarity each return score 0, called directly and inside
  \<open>score_transcript\<close>; the speech-rate scorer also returns 0 for every duration that
  is zero or negative. None of them can fail: the model has no error value because the
  source has no raise on these paths. The engagement scorer does not return 0: its
  score is one of 3, 6, 9, 12, 15, and it is 3 when the analyser reports a positive
  share below 0.1.
\<close>

theorem degenerate_input_scores:
  fixes rnd :: "real \<Rightarrow> real" and pos_of :: "string \<Rightarrow> real" and encode :: "string \<Rightarrow> 'e" and cos_sim :: "'e \<Rightarrow> 'e \<Rightarrow> real"
  shows
  "((\<forall>c \<in> set text. isspace c) \<longrightarrow>
      total_words (get_basic_stats text) = 0
      \<and> score_salutation text = 0
      \<and> fst (score_keywords text) = 0
      \<and> score_flow (sentences (get_basic_stats text))
            (detect_structure_tags (sentences (get_basic_stats text))) = 0
      \<and> score_speech_rate rnd (total_words (get_basic_stats text)) d = (0, 0)
      \<and> score_grammar rnd text (total_words (get_basic_stats text)) = (0, 0)
      \<and> score_vocabulary (total_words (get_basic_stats text))
            (distinct_words (get_basic_stats text)) = (0, 0)
      \<and> score_clarity text (total_words (get_basic_stats text)) = (0, 0, 0)
      \<and> salutation_score (score_transcript rnd pos_of encode cos_sim text d) = 0
      \<and> keyword_score (score_transcript rnd pos_of encode cos_sim text d) = 0
      \<and> flow_score (score_transcript rnd pos_of encode cos_sim text d) = 0
      \<and> speech_score (score_transcript rnd pos_of encode cos_sim text d) = 0
      \<and> grammar_score (score_transcript rnd pos_of encode cos_sim text d) = 0
      \<and> vocab_score (score_transcript rnd pos_of encode cos_sim text d) = 0
      \<and> clarity_score (score_transcript rnd pos_of encode cos_sim text d) = 0)
   \<and> (total_words (get_basic_stats text) = 0 \<longleftrightarrow> (\<forall>c \<in> set text. isspace c))
   \<and> (d \<le> 0 \<longrightarrow> score_speech_rate rnd tw d = (0, 0)
                \<and> speech_score (score_transcript rnd pos_of encode cos_sim text d) = 0)
   \<and> fst (score_engagement pos_of text) \<in> {3, 6, 9, 12, 15}
   \<and> engagement_score (score_transcript rnd pos_of encode cos_sim text d) \<in> {3, 6, 9, 12, 15}
   \<and> (pos_of text < 1 / 10 \<longrightarrow> fst (score_engagement pos_of text) = 3)"
proof -
  have ws: "total_words (get_basic_stats text) = 0
      \<and> score_salutation text = 0
      \<and> fst (score_keywords text) = 0
      \<and> score_flow (sentences (get_basic_stats text))
            (detect_structure_tags (sentences (get_basic_stats text))) = 0
      \<and> score_speech_rate rnd (total_words (get_basic_stats text)) d = (0, 0)
      \<and> score_grammar rnd text (total_words (get_basic_stats text)) = (0, 0)
      \<and> score_vocabulary (total_words (get_basic_stats text))
            (distinct_words (get_basic_stats text)) = (0, 0)
      \<and> score_clarity text (total_words (get_basic_stats text)) = (0, 0, 0)
      \<and> salutation_score (score_transcript rnd pos_of encode cos_sim text d) = 0
      \<and> keyword_score (score_transcript rnd pos_of encode cos_sim text d) = 0
      \<and> flow_score (score_transcript rnd pos_of encode cos_sim text d) = 0
      \<and> speech_score (score_transcript rnd pos_of encode cos_sim text d) = 0
      \<and> grammar_score (score_transcript rnd pos_of encode cos_sim text d) = 0
      \<and> vocab_score (score_transcript rnd pos_of encode cos_sim text d) = 0
      \<and> clarity_score (score_transcript rnd pos_of encode cos_sim text d) = 0"
    if sp: "\<forall>c \<in> set text. isspace c"
  proof -
    note st = get_basic_stats_all_space [OF sp]
    have pre: "preprocess_text text = []" by (rule preprocess_text_all_space [OF sp])
    have st0: "get_basic_stats [] =
        \<lparr>tokens = [], total_words = 0, distinct_words = 0, sentences = [], sentence_count = 0\<rparr>"
      by (rule get_basic_stats_all_space) simp
    have k0: "fst (score_keywords []) = 0" by (rule score_keywords_all_space) simp
    have sal: "score_salutation text = 0"
      by (simp add: score_salutation_def detect_salutation_level_def st)
    have sal0: "score_salutation [] = 0"
      by (simp add: score_salutation_def detect_salutation_level_def)
    have kw: "fst (score_keywords text) = 0" by (rule score_keywords_all_space [OF sp])
    have fl: "score_flow [] (detect_structure_tags []) = 0" by (simp add: score_flow_def)
    have spd: "score_speech_rate rnd 0 d = (0, 0)" by (simp add: score_speech_rate_def)
    have gr: "score_grammar rnd x 0 = (0, 0)" for x by (simp add: score_grammar_def)
    have vo: "score_vocabulary 0 0 = (0, 0)" by (simp add: score_vocabulary_def)
    have cl: "score_clarity x 0 = (0, 0, 0)" for x by (simp add: score_clarity_def)
    have direct: "total_words (get_basic_stats text) = 0
      \<and> score_salutation text = 0
      \<and> fst (score_keywords text) = 0
      \<and> score_flow (sentences (get_basic_stats text))
            (detect_structure_tags (sentences (get_basic_stats text))) = 0
      \<and> score_speech_rate rnd (total_words (get_basic_stats text)) d = (0, 0)
      \<and> score_grammar rnd text (total_words (get_basic_stats text)) = (0, 0)
      \<and> score_vocabulary (total_words (get_basic_stats text))
            (distinct_words (get_basic_stats text)) = (0, 0)
      \<and> score_clarity text (total_words (get_basic_stats text)) = (0, 0, 0)"
      by (simp add: st sal kw fl spd gr vo cl)
    have pipe: "salutation_score (score_transcript rnd pos_of encode cos_sim text d) = 0
      \<and> keyword_score (score_transcript rnd pos_of encode cos_sim text d) = 0
      \<and> flow_score (score_transcript rnd pos_of encode cos_sim text d) = 0
      \<and> speech_score (score_transcript rnd pos_of encode cos_sim text d) = 0
      \<and> grammar_score (score_transcript rnd pos_of encode cos_sim text d) = 0
      \<and> vocab_score (score_transcript rnd pos_of encode cos_sim text d) = 0
      \<and> clarity_score (score_transcript rnd pos_of encode cos_sim text d) = 0"
      by (simp add: score_transcript_def Let_def pre st0 sal0 k0 fl spd gr vo cl)
    show ?thesis using direct pipe by blast
  qed
  have dur: "d \<le> 0 \<longrightarrow> score_speech_rate rnd tw d = (0, 0)
                \<and> speech_score (score_transcript rnd pos_of encode cos_sim text d) = 0"
    by (simp add: score_transcript_def Let_def score_speech_rate_def)
  have en: "fst (score_engagement pos_of text) \<in> {3, 6, 9, 12, 15}"
    by (rule score_engagement_range)
  have en2: "engagement_score (score_transcript rnd pos_of encode cos_sim text d)
               = fst (score_engagement pos_of text)"
    by (simp add: score_transcript_def Let_def)
  have low: "pos_of text < 1 / 10 \<longrightarrow> fst (score_engagement pos_of text) = 3"
    by (simp add: score_engagement_def Let_def)
  show ?thesis
    using ws total_words_zero_iff [of "text"] dur en low unfolding en2 by blast
qed

theorem degenerate_input_scores_witness:
  "fst (score_keywords [CHR '' '', CHR 0x0A]) = 0
   \<and> score_salutation [CHR '' '', CHR 0x0A] = 0
   \<and> clarity_score (score_transcript (\<lambda>x. x) (\<lambda>t. 0) length (\<lambda>a b. 0) [CHR '' '', CHR 0x0A] 60) = 0
   \<and> fst (score_speech_rate (\<lambda>x. x) 120 (- 5)) = 0
   \<and> fst (score_engagement (\<lambda>t. 0) [CHR '' '', CHR 0x0A]) = 3"
proof -
  have h: "\<forall>c \<in> set [CHR '' '', CHR 0x0A]. isspace c"
    by (simp add: isspace_def)
  show ?thesis
    using degenerate_input_scores
            [of "[CHR '' '', CHR 0x0A]" "\<lambda>x. x" 60 "\<lambda>t. 0" length "\<lambda>a b. 0" 120]
      degenerate_input_scores
            [of "[CHR '' '', CHR 0x0A]" "\<lambda>x. x" "- 5" "\<lambda>t. 0" length "\<lambda>a b. 0" 120] h
    by simp
qed

end
